theory Spec2Isabelle
  imports Complex_Main "HOL-Library.AList" "HOL-Library.Word"
begin

section \<open>Values and exceptions\<close>

text \<open>
  The exceptions the modelled code can raise or pass on. \<open>UpstreamError\<close> stands for
  any exception object handed to a stage by its source.
\<close>

datatype error =
    AttributeError
  | TypeError
  | KeyError string
  | AssertionError
  | ValueError
  | OSError
  | TimeoutExpired
  | JSONDecodeError
  | UpstreamError nat

text \<open>
  What \<^verbatim>\<open>json.loads\<close> can return. A dict keeps its insertion order, so it is an
  association list (keys are distinct in every dict Python builds); \<open>JFloat\<close> carries
  the exact value of a finite float.
\<close>

datatype json =
    JNull
  | JBool bool
  | JInt int
  | JFloat real
  | JStr string
  | JList "json list"
  | JObj "(string \<times> json) list"

type_synonym pydict = "(string \<times> json) list"

text \<open>Truth value of an object, as \<^verbatim>\<open>if x:\<close> and \<^verbatim>\<open>and\<close> test it.\<close>

fun truthy :: "json \<Rightarrow> bool" where
  "truthy JNull = False"
| "truthy (JBool b) = b"
| "truthy (JInt i) = (i \<noteq> 0)"
| "truthy (JFloat r) = (r \<noteq> 0)"
| "truthy (JStr s) = (s \<noteq> [])"
| "truthy (JList xs) = (xs \<noteq> [])"
| "truthy (JObj d) = (d \<noteq> [])"

fun num_of :: "json \<Rightarrow> real option" where
  "num_of (JBool b) = Some (if b then 1 else 0)"
| "num_of (JInt i) = Some (of_int i)"
| "num_of (JFloat r) = Some r"
| "num_of _ = None"

text \<open>
  Python's \<^verbatim>\<open>==\<close> on these values: numbers (and bools) compare by value, lists
  elementwise, dicts as sets of entries.
\<close>

fun py_eq :: "json \<Rightarrow> json \<Rightarrow> bool"
  and py_eq_list :: "json list \<Rightarrow> json list \<Rightarrow> bool"
  and py_sub_dict :: "pydict \<Rightarrow> pydict \<Rightarrow> bool"
where
  "py_eq JNull y = (y = JNull)"
| "py_eq (JBool b) y = (num_of y = Some (if b then 1 else 0))"
| "py_eq (JInt i) y = (num_of y = Some (of_int i))"
| "py_eq (JFloat r) y = (num_of y = Some r)"
| "py_eq (JStr s) y = (y = JStr s)"
| "py_eq (JList xs) y = (case y of JList ys \<Rightarrow> py_eq_list xs ys | _ \<Rightarrow> False)"
| "py_eq (JObj a) y =
     (case y of JObj b \<Rightarrow> length a = length b \<and> py_sub_dict a b | _ \<Rightarrow> False)"
| "py_eq_list [] ys = (ys = [])"
| "py_eq_list (x # xs) ys =
     (case ys of [] \<Rightarrow> False | y # ys' \<Rightarrow> py_eq x y \<and> py_eq_list xs ys')"
| "py_sub_dict [] b = True"
| "py_sub_dict (kv # a) b =
     (case map_of b (fst kv) of
        None \<Rightarrow> False
      | Some w \<Rightarrow> py_eq (snd kv) w \<and> py_sub_dict a b)"

text \<open>\<^verbatim>\<open>d.get(k, default)\<close> on a dict.\<close>

definition get_default :: "pydict \<Rightarrow> string \<Rightarrow> json \<Rightarrow> json" where
  "get_default d k dflt = (case map_of d k of None \<Rightarrow> dflt | Some v \<Rightarrow> v)"

text \<open>\<^verbatim>\<open>x.get(k, default)\<close> on any object: only a dict has \<^verbatim>\<open>get\<close>.\<close>

fun py_get :: "json \<Rightarrow> string \<Rightarrow> json \<Rightarrow> error + json" where
  "py_get (JObj d) k dflt = Inr (get_default d k dflt)"
| "py_get _ k dflt = Inl AttributeError"

text \<open>\<^verbatim>\<open>d[k]\<close> on a dict: a missing key raises.\<close>

definition getitem :: "pydict \<Rightarrow> string \<Rightarrow> error + json" where
  "getitem d k = (case map_of d k of None \<Rightarrow> Inl (KeyError k) | Some v \<Rightarrow> Inr v)"

text \<open>The elements a \<^verbatim>\<open>for\<close> loop over the object visits.\<close>

fun py_iter :: "json \<Rightarrow> error + json list" where
  "py_iter (JList xs) = Inr xs"
| "py_iter (JObj d) = Inr (map (\<lambda>kv. JStr (fst kv)) d)"
| "py_iter (JStr s) = Inr (map (\<lambda>c. JStr [c]) s)"
| "py_iter _ = Inl TypeError"

fun is_substr :: "string \<Rightarrow> string \<Rightarrow> bool" where
  "is_substr xs [] = (xs = [])"
| "is_substr xs (y # ys) = (take (length xs) (y # ys) = xs \<or> is_substr xs ys)"

text \<open>\<^verbatim>\<open>k in x\<close> for a string \<open>k\<close>.\<close>

fun py_contains :: "json \<Rightarrow> string \<Rightarrow> error + bool" where
  "py_contains (JObj d) k = Inr (map_of d k \<noteq> None)"
| "py_contains (JList xs) k = Inr (list_ex (py_eq (JStr k)) xs)"
| "py_contains (JStr s) k = Inr (is_substr k s)"
| "py_contains _ k = Inl TypeError"

text \<open>\<^verbatim>\<open>x[k] = v\<close> for a string \<open>k\<close>: only a dict accepts it.\<close>

fun py_setitem :: "json \<Rightarrow> string \<Rightarrow> json \<Rightarrow> error + json" where
  "py_setitem (JObj d) k v = Inr (JObj (AList.update k v d))"
| "py_setitem _ k v = Inl TypeError"

section \<open>Stream normalisation (utils/ffprobe.py)\<close>

text \<open>\<^verbatim>\<open>[s for s in streams if s.get('codec_type') == kind]\<close> over the visited elements.\<close>

fun select_kind :: "string \<Rightarrow> json list \<Rightarrow> error + json list" where
  "select_kind kind [] = Inr []"
| "select_kind kind (s # ss) =
     (case py_get s ''codec_type'' JNull of
        Inl e \<Rightarrow> Inl e
      | Inr t \<Rightarrow>
          (case select_kind kind ss of
             Inl e \<Rightarrow> Inl e
           | Inr r \<Rightarrow> Inr (if py_eq t (JStr kind) then s # r else r)))"

definition streams_of_kind :: "string \<Rightarrow> json \<Rightarrow> error + json list" where
  "streams_of_kind kind streams =
     (case py_iter streams of Inl e \<Rightarrow> Inl e | Inr ss \<Rightarrow> select_kind kind ss)"

definition video_placeholder :: json where
  "video_placeholder = JObj
     [(''codec_type'', JStr ''video''),
      (''codec_name'', JStr ''none''),
      (''width'', JInt 0),
      (''height'', JInt 0),
      (''index'', JInt (- 1)),
      (''codec_long_name'', JStr ''''),
      (''codec_tag_string'', JStr ''''),
      (''codec_tag'', JStr ''''),
      (''coded_width'', JInt 0),
      (''coded_height'', JInt 0),
      (''closed_captions'', JInt 0),
      (''film_grain'', JInt 0),
      (''has_b_frames'', JInt 0),
      (''level'', JInt 0),
      (''refs'', JInt 0),
      (''is_avc'', JStr ''''),
      (''nal_length_size'', JStr ''''),
      (''id'', JStr ''''),
      (''r_frame_rate'', JStr ''''),
      (''avg_frame_rate'', JStr ''''),
      (''time_base'', JStr ''''),
      (''duration_ts'', JInt 0),
      (''duration'', JStr ''''),
      (''extradata_size'', JInt 0),
      (''disposition'', JObj []),
      (''tags'', JObj [])]"

definition audio_placeholder :: json where
  "audio_placeholder = JObj
     [(''codec_type'', JStr ''audio''),
      (''codec_name'', JStr ''none''),
      (''sample_fmt'', JStr ''''),
      (''sample_rate'', JStr ''0''),
      (''channels'', JInt 0),
      (''channel_layout'', JStr ''''),
      (''bits_per_sample'', JInt 0),
      (''index'', JInt (- 1)),
      (''codec_long_name'', JStr ''''),
      (''codec_tag_string'', JStr ''''),
      (''codec_tag'', JStr ''''),
      (''id'', JStr ''''),
      (''r_frame_rate'', JStr ''''),
      (''avg_frame_rate'', JStr ''''),
      (''time_base'', JStr ''''),
      (''duration_ts'', JInt 0),
      (''duration'', JStr ''''),
      (''bit_rate'', JStr ''''),
      (''extradata_size'', JInt 0),
      (''disposition'', JObj []),
      (''tags'', JObj [])]"

text \<open>
  The encoder block: \<^verbatim>\<open>video_stream\<close> is the first element of \<^verbatim>\<open>video_streams\<close>
  and is changed in place, so the list that is merged later holds the changed dict.
\<close>

definition add_encoder :: "json \<Rightarrow> json \<Rightarrow> error + json" where
  "add_encoder video_stream encoder =
     (case video_stream of
        JObj d \<Rightarrow>
          (let d1 = (if map_of d ''tags'' = None then AList.update ''tags'' (JObj []) d else d);
               tags = get_default d1 ''tags'' JNull
           in case py_contains tags ''encoder'' of
                Inl e \<Rightarrow> Inl e
              | Inr True \<Rightarrow> Inr (JObj d1)
              | Inr False \<Rightarrow>
                  (case py_setitem tags ''encoder'' encoder of
                     Inl e \<Rightarrow> Inl e
                   | Inr tags' \<Rightarrow> Inr (JObj (AList.update ''tags'' tags' d1))))
      | _ \<Rightarrow> Inl TypeError)"

text \<open>The merging loop over \<^verbatim>\<open>range(max_len)\<close>.\<close>

definition merge_streams :: "json list \<Rightarrow> json list \<Rightarrow> json list" where
  "merge_streams video_streams audio_streams =
     concat (map (\<lambda>i. (if i < length video_streams then [video_streams ! i] else []) @
                       (if i < length audio_streams then [audio_streams ! i] else []))
                 [0 ..< max (length video_streams) (length audio_streams)])"

definition get_encoder :: "pydict \<Rightarrow> error + json" where
  "get_encoder profile =
     (case py_get (get_default profile ''format'' (JObj [])) ''tags'' (JObj []) of
        Inl e \<Rightarrow> Inl e
      | Inr tags \<Rightarrow> py_get tags ''encoder'' JNull)"

definition normalize_streams :: "json \<Rightarrow> error + json" where
  "normalize_streams profile =
     (case profile of
        JObj p \<Rightarrow>
          (let streams = get_default p ''streams'' (JList []) in
           case streams_of_kind ''video'' streams of
             Inl e \<Rightarrow> Inl e
           | Inr video_streams \<Rightarrow>
          (case streams_of_kind ''audio'' streams of
             Inl e \<Rightarrow> Inl e
           | Inr audio_streams \<Rightarrow>
          (case get_encoder p of
             Inl e \<Rightarrow> Inl e
           | Inr encoder \<Rightarrow>
          (case (if video_streams \<noteq> [] \<and> truthy encoder
                 then (case add_encoder (hd video_streams) encoder of
                         Inl e \<Rightarrow> Inl e
                       | Inr v \<Rightarrow> Inr (v # tl video_streams))
                 else Inr video_streams) of
             Inl e \<Rightarrow> Inl e
           | Inr video_streams1 \<Rightarrow>
               (let video_streams2 =
                      (if video_streams1 = [] then [video_placeholder] else video_streams1);
                    audio_streams2 =
                      (if audio_streams = [] then [audio_placeholder] else audio_streams);
                    merged = merge_streams video_streams2 audio_streams2
                in Inr (JObj (AList.update ''streams'' (JList merged) p)))))))
      | _ \<Rightarrow> Inl AttributeError)"

text \<open>
  Reading a normalised profile: a descriptor is of a kind when
  \<^verbatim>\<open>s.get('codec_type') == kind\<close>; the first descriptor of a kind is what
  \<^verbatim>\<open>next((s for s in streams if ...), None)\<close> finds.
\<close>

fun is_kind :: "string \<Rightarrow> json \<Rightarrow> bool" where
  "is_kind kind (JObj d) = (map_of d ''codec_type'' = Some (JStr kind))"
| "is_kind kind _ = False"

definition profile_streams :: "json \<Rightarrow> json list" where
  "profile_streams profile =
     (case profile of
        JObj p \<Rightarrow> (case map_of p ''streams'' of Some (JList ms) \<Rightarrow> ms | _ \<Rightarrow> [])
      | _ \<Rightarrow> [])"


definition field :: "json \<Rightarrow> string \<Rightarrow> json option" where
  "field s k = (case s of JObj d \<Rightarrow> map_of d k | _ \<Rightarrow> None)"

definition entries :: "json \<Rightarrow> pydict" where
  "entries s = (case s of JObj d \<Rightarrow> d | _ \<Rightarrow> [])"



text \<open>
  The shape the \<^verbatim>\<open>StreamProfile\<close> type declares: \<^verbatim>\<open>streams\<close> a list of dicts whose
  \<^verbatim>\<open>tags\<close> are dicts, \<^verbatim>\<open>format\<close> a dict whose \<^verbatim>\<open>tags\<close> are a dict (each may be
  missing).
\<close>

fun is_dict :: "json \<Rightarrow> bool" where
  "is_dict (JObj d) = True"
| "is_dict _ = False"

definition typed_stream :: "json \<Rightarrow> bool" where
  "typed_stream s = (case s of JObj d \<Rightarrow> is_dict (get_default d ''tags'' (JObj [])) | _ \<Rightarrow> False)"

definition typed_profile :: "json \<Rightarrow> bool" where
  "typed_profile profile =
     (case profile of
        JObj p \<Rightarrow>
          (case get_default p ''streams'' (JList []) of
             JList ss \<Rightarrow> list_all typed_stream ss
           | _ \<Rightarrow> False) \<and>
          (case get_default p ''format'' (JObj []) of
             JObj f \<Rightarrow> is_dict (get_default f ''tags'' (JObj []))
           | _ \<Rightarrow> False)
      | _ \<Rightarrow> False)"

section \<open>The probe (utils/ffprobe.py)\<close>

type_synonym bytes = "8 word list"

text \<open>
  What the external process does with an input is a parameter: \<^verbatim>\<open>Popen\<close> raises and
  nothing is spawned, or \<^verbatim>\<open>communicate\<close> raises (the timeout, an interrupt) with the
  process still alive, or it returns the output after the process has exited.
  \<^verbatim>\<open>json.loads\<close> is a parameter as well.
\<close>

datatype proc_outcome = SpawnFails error | CommunicateFails error | Stdout bytes

record probe_env =
  run_process :: "bytes \<Rightarrow> proc_outcome"
  json_loads :: "bytes \<Rightarrow> error + json"

text \<open>The calls made on the process handle, in order.\<close>

datatype proc_op = Spawn | CommunicateReturned | CommunicateRaised | Kill | Wait | ContextExit

datatype proc_state = NoProcess | Running | Killed | Reaped

text \<open>
  \<^verbatim>\<open>communicate\<close> returns after it has waited for the process; \<^verbatim>\<open>kill\<close> on a
  process already waited for does nothing; leaving the \<^verbatim>\<open>with\<close> block waits.
\<close>

fun proc_step :: "proc_state \<Rightarrow> proc_op \<Rightarrow> proc_state" where
  "proc_step st Spawn = Running"
| "proc_step st CommunicateReturned = Reaped"
| "proc_step st CommunicateRaised = st"
| "proc_step st Kill = (if st = Running then Killed else st)"
| "proc_step st Wait = (if st = NoProcess then NoProcess else Reaped)"
| "proc_step st ContextExit = (if st = NoProcess then NoProcess else Reaped)"

definition proc_state_after :: "proc_op list \<Rightarrow> proc_state" where
  "proc_state_after ops = foldl proc_step NoProcess ops"

definition ffprobe_run :: "probe_env \<Rightarrow> bytes \<Rightarrow> proc_op list \<times> (error + json)" where
  "ffprobe_run env data =
     (case run_process env data of
        SpawnFails e \<Rightarrow> ([], Inl e)
      | CommunicateFails e \<Rightarrow> ([Spawn, CommunicateRaised, Kill, Wait, ContextExit], Inl e)
      | Stdout out \<Rightarrow>
          (case json_loads env out of
             Inl e \<Rightarrow> ([Spawn, CommunicateReturned, Kill, Wait, ContextExit], Inl e)
           | Inr profile \<Rightarrow> ([Spawn, CommunicateReturned, ContextExit], normalize_streams profile)))"

definition ffprobe :: "probe_env \<Rightarrow> bytes \<Rightarrow> error + json" where
  "ffprobe env data = snd (ffprobe_run env data)"

section \<open>The segment dumper (hls/operators/segment_dumper.py)\<close>

subsection \<open>Items, files and events\<close>

text \<open>
  Modelled from the spec: the item classes \<^verbatim>\<open>InitSectionData\<close> and
  \<^verbatim>\<open>SegmentData\<close> of \<^verbatim>\<open>segment_fetcher.py\<close>, which is not among the source files. An
  item is one of two variants carrying a binary payload, the forced-split flag of its
  chunk descriptor (\<^verbatim>\<open>item.segment.custom_parser_values.get('split', False)\<close>) and a
  byte offset, unset until the item is written. \<^verbatim>\<open>len(item)\<close> is the length of the
  payload.
\<close>

datatype item_kind = InitSectionData | SegmentData

record item =
  kind :: item_kind
  payload :: bytes
  forced_split :: bool
  offset :: "nat option"

text \<open>
  The open \<^verbatim>\<open>io.BufferedWriter\<close>: the path it was opened on, the position
  \<^verbatim>\<open>tell()\<close> reports and whether it has been closed.
\<close>

record file_handle =
  fname :: string
  fpos :: nat
  is_closed :: bool

text \<open>
  The state of a \<^verbatim>\<open>SegmentDumper\<close> (\<open>path\<close>, \<open>ofile\<close>, \<open>filesize\<close>) together with
  the variables of the running subscription (\<open>last_init_item\<close>, \<open>disposed\<close>).
  The attribute \<^verbatim>\<open>_file\<close> is the field \<open>ofile\<close>.
\<close>

record dumper =
  path :: string
  ofile :: "file_handle option"
  filesize :: nat
  last_init_item :: "item option"
  disposed :: bool

text \<open>
  The file system and a count of the opens and writes made on it. The outcome of the
  \<open>n\<close>-th of them (what the path provider returns, whether \<^verbatim>\<open>open\<close> or
  \<^verbatim>\<open>write\<close> raises) is a parameter, and so is whether a \<^verbatim>\<open>close\<close> attempted after
  \<open>n\<close> of them raises (it flushes the buffer, and does so on a full disk). The path
  provider and \<^verbatim>\<open>PurePath(path).with_suffix('.m4s')\<close> are taken to return. The disk
  holds what has been written through the handle; a \<^verbatim>\<open>write\<close> or a \<^verbatim>\<open>close\<close>
  that raises is taken to leave it as it was.
\<close>

record world =
  disk :: "string \<Rightarrow> bytes option"
  tick :: nat

record env =
  path_provider :: "nat \<Rightarrow> string \<times> int"
  with_suffix :: "string \<Rightarrow> string"
  open_error :: "nat \<Rightarrow> error option"
  write_error :: "nat \<Rightarrow> error option"
  close_error :: "nat \<Rightarrow> error option"
  probe :: probe_env

text \<open>
  What the stage sends out: on its two subjects (\<open>FileOpened\<close>, \<open>FileClosed\<close>) and to
  the downstream observer (\<open>EmitNext\<close>, \<open>EmitError\<close>, \<open>EmitCompleted\<close>).
\<close>

datatype event =
    FileOpened string int
  | FileClosed string
  | EmitNext item
  | EmitError error
  | EmitCompleted

text \<open>How a handler call ends: it returns, or an exception leaves it.\<close>

datatype outcome = Returned | Raised error

subsection \<open>The methods\<close>

definition reset :: "dumper \<Rightarrow> dumper" where
  "reset d = d\<lparr>path := [], ofile := None, filesize := 0\<rparr>"

definition new_dumper :: dumper where
  "new_dumper = \<lparr>path = [], ofile = None, filesize = 0, last_init_item = None, disposed = False\<rparr>"

definition open_file :: "env \<Rightarrow> dumper \<Rightarrow> world \<Rightarrow> outcome \<times> dumper \<times> world \<times> event list" where
  "open_file env d w =
     (let (p, timestamp) = path_provider env (tick w);
          d1 = d\<lparr>path := with_suffix env p\<rparr>;
          w1 = w\<lparr>tick := tick w + 1\<rparr>
      in case open_error env (tick w) of
           Some e \<Rightarrow> (Raised e, d1, w1, [])
         | None \<Rightarrow>
             (Returned,
              d1\<lparr>ofile := Some \<lparr>fname = path d1, fpos = 0, is_closed = False\<rparr>\<rparr>,
              w1\<lparr>disk := (disk w1)(path d1 \<mapsto> [])\<rparr>,
              [FileOpened (path d1) timestamp]))"

text \<open>
  \<^verbatim>\<open>self._file.close()\<close> closes the file even when it raises; the exception then
  leaves \<^verbatim>\<open>_close_file\<close> before \<^verbatim>\<open>_file_closed.on_next\<close> is reached.
\<close>

definition close_file :: "env \<Rightarrow> dumper \<Rightarrow> world \<Rightarrow> outcome \<times> dumper \<times> event list" where
  "close_file env d w =
     (case ofile d of
        None \<Rightarrow> (Returned, d, [])
      | Some h \<Rightarrow>
          if \<not> is_closed h
          then (case close_error env (tick w) of
                  Some e \<Rightarrow> (Raised e, d\<lparr>ofile := Some (h\<lparr>is_closed := True\<rparr>)\<rparr>, [])
                | None \<Rightarrow>
                    (Returned, d\<lparr>ofile := Some (h\<lparr>is_closed := True\<rparr>)\<rparr>,
                     [FileClosed (path d)]))
          else (Returned, d, []))"

text \<open>Writing at the handle's position (a gap before it would be filled with zeros).\<close>

definition write_at :: "bytes \<Rightarrow> nat \<Rightarrow> bytes \<Rightarrow> bytes" where
  "write_at content p data =
     take p (content @ replicate (p - length content) 0) @ data @ drop (p + length data) content"

definition write_data ::
  "env \<Rightarrow> dumper \<Rightarrow> world \<Rightarrow> item \<Rightarrow> (error + nat \<times> nat) \<times> dumper \<times> world" where
  "write_data env d w it =
     (case ofile d of
        None \<Rightarrow> (Inl AssertionError, d, w)
      | Some h \<Rightarrow>
          if is_closed h then (Inl ValueError, d, w)
          else
            (let offset = fpos h; w1 = w\<lparr>tick := tick w + 1\<rparr>
             in case write_error env (tick w) of
                  Some e \<Rightarrow> (Inl e, d, w1)
                | None \<Rightarrow>
                    (let sz = length (payload it);
                         content = (case disk w (fname h) of None \<Rightarrow> [] | Some c \<Rightarrow> c)
                     in if sz = length (payload it)
                        then (Inr (offset, sz),
                              d\<lparr>ofile := Some (h\<lparr>fpos := fpos h + sz\<rparr>)\<rparr>,
                              w1\<lparr>disk := (disk w1)(fname h \<mapsto> write_at content (fpos h) (payload it))\<rparr>)
                        else (Inl AssertionError,
                              d\<lparr>ofile := Some (h\<lparr>fpos := fpos h + sz\<rparr>)\<rparr>,
                              w1\<lparr>disk := (disk w1)(fname h \<mapsto> write_at content (fpos h) (payload it))\<rparr>))))"

definition update_filesize :: "dumper \<Rightarrow> nat \<Rightarrow> dumper" where
  "update_filesize d sz = d\<lparr>filesize := filesize d + sz\<rparr>"

definition is_redundant :: "item option \<Rightarrow> item \<Rightarrow> bool" where
  "is_redundant prev_init_item curr_init_item =
     (case prev_init_item of
        None \<Rightarrow> False
      | Some prev \<Rightarrow> payload curr_init_item = payload prev)"

definition need_split_file :: "item \<Rightarrow> bool" where
  "need_split_file it = forced_split it"

subsection \<open>The rotation decision\<close>

text \<open>
  \<^verbatim>\<open>next((s for s in profile['streams'] if s.get('codec_type') == kind), None)\<close>,
  with \<open>JNull\<close> for \<^verbatim>\<open>None\<close>.
\<close>

fun find_kind :: "string \<Rightarrow> json list \<Rightarrow> error + json" where
  "find_kind k [] = Inr JNull"
| "find_kind k (s # ss) =
     (case py_get s ''codec_type'' JNull of
        Inl e \<Rightarrow> Inl e
      | Inr t \<Rightarrow> if py_eq t (JStr k) then Inr s else find_kind k ss)"

definition first_of_kind :: "string \<Rightarrow> json \<Rightarrow> error + json" where
  "first_of_kind k profile =
     (case profile of
        JObj p \<Rightarrow>
          (case getitem p ''streams'' of
             Inl e \<Rightarrow> Inl e
           | Inr streams \<Rightarrow>
               (case py_iter streams of Inl e \<Rightarrow> Inl e | Inr ss \<Rightarrow> find_kind k ss))
      | _ \<Rightarrow> Inl TypeError)"

text \<open>\<^verbatim>\<open>prev[k] != curr[k]\<close> on two objects.\<close>

definition ne_item :: "json \<Rightarrow> json \<Rightarrow> string \<Rightarrow> error + bool" where
  "ne_item prev_s curr_s k =
     (case prev_s of
        JObj p \<Rightarrow>
          (case getitem p k of
             Inl e \<Rightarrow> Inl e
           | Inr a \<Rightarrow>
               (case curr_s of
                  JObj c \<Rightarrow>
                    (case getitem c k of Inl e \<Rightarrow> Inl e | Inr b \<Rightarrow> Inr (\<not> py_eq a b))
                | _ \<Rightarrow> Inl TypeError))
      | _ \<Rightarrow> Inl TypeError)"

text \<open>\<^verbatim>\<open>prev.get(k) != curr.get(k)\<close>\<close>

definition ne_get :: "json \<Rightarrow> json \<Rightarrow> string \<Rightarrow> error + bool" where
  "ne_get prev_s curr_s k =
     (case py_get prev_s k JNull of
        Inl e \<Rightarrow> Inl e
      | Inr a \<Rightarrow> (case py_get curr_s k JNull of Inl e \<Rightarrow> Inl e | Inr b \<Rightarrow> Inr (\<not> py_eq a b)))"

text \<open>\<^verbatim>\<open>x or y\<close>: the right operand is evaluated only when the left one is false.\<close>

fun or_else :: "error + bool \<Rightarrow> error + bool \<Rightarrow> error + bool" where
  "or_else (Inl e) y = Inl e"
| "or_else (Inr True) y = Inr True"
| "or_else (Inr False) y = y"

definition audio_changed :: "json \<Rightarrow> json \<Rightarrow> error + bool" where
  "audio_changed prev_audio curr_audio =
     or_else (ne_item prev_audio curr_audio ''codec_name'')
    (or_else (ne_item prev_audio curr_audio ''channels'')
    (or_else (ne_item prev_audio curr_audio ''sample_rate'')
             (ne_get prev_audio curr_audio ''bit_rate'')))"

definition video_changed :: "json \<Rightarrow> json \<Rightarrow> error + bool" where
  "video_changed prev_video curr_video =
     or_else (ne_item prev_video curr_video ''codec_name'')
    (or_else (ne_item prev_video curr_video ''width'')
    (or_else (ne_item prev_video curr_video ''height'')
    (or_else (ne_item prev_video curr_video ''coded_width'')
             (ne_item prev_video curr_video ''coded_height''))))"

text \<open>
  The result carries the warnings logged on the way. \<^verbatim>\<open>not prev_init_item\<close> holds for
  \<^verbatim>\<open>None\<close> and for an item of length 0.
\<close>

definition must_split_file :: "env \<Rightarrow> item option \<Rightarrow> item \<Rightarrow> error + string list \<times> bool" where
  "must_split_file env prev_init_item curr_init_item =
     (if prev_init_item = None \<or> payload (the prev_init_item) = []
      then (case ffprobe (probe env) (payload curr_init_item) of
              Inl e \<Rightarrow> Inl e
            | Inr curr_profile \<Rightarrow> Inr ([], True))
      else
       (case ffprobe (probe env) (payload (the prev_init_item)) of Inl e \<Rightarrow> Inl e | Inr prev_profile \<Rightarrow>
       (case ffprobe (probe env) (payload curr_init_item) of Inl e \<Rightarrow> Inl e | Inr curr_profile \<Rightarrow>
       (case first_of_kind ''video'' prev_profile of Inl e \<Rightarrow> Inl e | Inr prev_video \<Rightarrow>
       (case first_of_kind ''video'' curr_profile of Inl e \<Rightarrow> Inl e | Inr curr_video \<Rightarrow>
       (case first_of_kind ''audio'' prev_profile of Inl e \<Rightarrow> Inl e | Inr prev_audio \<Rightarrow>
       (case first_of_kind ''audio'' curr_profile of Inl e \<Rightarrow> Inl e | Inr curr_audio \<Rightarrow>
       (case (if truthy prev_audio \<and> truthy curr_audio
              then (case audio_changed prev_audio curr_audio of
                      Inl e \<Rightarrow> Inl e
                    | Inr b \<Rightarrow> Inr (if b then [''Audio parameters changed''] else []))
              else Inr []) of
          Inl e \<Rightarrow> Inl e
        | Inr audio_log \<Rightarrow>
       (case video_changed prev_video curr_video of
          Inl e \<Rightarrow> Inl e
        | Inr b \<Rightarrow>
            Inr (audio_log @ (if b then [''Video parameters changed''] else []), True))))))))))"

subsection \<open>The handlers of a subscription\<close>

definition subscribe :: "dumper \<Rightarrow> dumper" where
  "subscribe d = d\<lparr>last_init_item := None, disposed := False\<rparr>"

text \<open>
  The first part of \<^verbatim>\<open>on_next\<close>: the decision. \<open>None\<close> is the early return on a
  redundant item; otherwise the value of \<^verbatim>\<open>split_file\<close> and the state, or the
  exception that leaves \<^verbatim>\<open>_must_split_file\<close>.
\<close>

definition decide :: "env \<Rightarrow> dumper \<Rightarrow> item \<Rightarrow> (error + bool \<times> dumper) option" where
  "decide env d it =
     (if kind it = InitSectionData
      then (if is_redundant (last_init_item d) it then None
            else (case must_split_file env (last_init_item d) it of
                    Inl e \<Rightarrow> Some (Inl e)
                  | Inr (warnings, split_file) \<Rightarrow>
                      (let d1 = d\<lparr>last_init_item := Some it\<rparr>
                       in Some (Inr (if \<not> split_file then need_split_file it else split_file, d1)))))
      else Some (Inr (need_split_file it, d)))"

text \<open>\<^verbatim>\<open>self._close_file(); self._reset(); self._open_file()\<close>\<close>

definition rotate :: "env \<Rightarrow> dumper \<Rightarrow> world \<Rightarrow> outcome \<times> dumper \<times> world \<times> event list" where
  "rotate env d w =
     (case close_file env d w of
        (Raised e, d1, closed_events) \<Rightarrow> (Raised e, d1, w, closed_events)
      | (Returned, d1, closed_events) \<Rightarrow>
          (case open_file env (reset d1) w of
             (r, d2, w2, opened_events) \<Rightarrow> (r, d2, w2, closed_events @ opened_events)))"

text \<open>Write one item, add its size, forward a copy carrying the offset.\<close>

definition dump_item ::
  "env \<Rightarrow> dumper \<Rightarrow> world \<Rightarrow> item \<Rightarrow> (error + unit) \<times> dumper \<times> world \<times> event list" where
  "dump_item env d w it =
     (case write_data env d w it of
        (Inl e, d1, w1) \<Rightarrow> (Inl e, d1, w1, [])
      | (Inr (off, sz), d1, w1) \<Rightarrow>
          (Inr (), update_filesize d1 sz, w1, [EmitNext (it\<lparr>offset := Some off\<rparr>)]))"

text \<open>The body of the \<^verbatim>\<open>try\<close> block.\<close>

definition try_body ::
  "env \<Rightarrow> dumper \<Rightarrow> world \<Rightarrow> item \<Rightarrow> bool \<Rightarrow> (error + unit) \<times> dumper \<times> world \<times> event list" where
  "try_body env d w it split_file =
     (case (if split_file \<and> kind it \<noteq> InitSectionData
            then (case last_init_item d of
                    None \<Rightarrow> (Inl AssertionError, d, w, [])
                  | Some li \<Rightarrow> dump_item env d w li)
            else (Inr (), d, w, [])) of
        (Inl e, d1, w1, ev1) \<Rightarrow> (Inl e, d1, w1, ev1)
      | (Inr u, d1, w1, ev1) \<Rightarrow>
          (case dump_item env d1 w1 it of (r, d2, w2, ev2) \<Rightarrow> (r, d2, w2, ev1 @ ev2)))"

definition on_next :: "env \<Rightarrow> dumper \<Rightarrow> world \<Rightarrow> item \<Rightarrow> outcome \<times> dumper \<times> world \<times> event list" where
  "on_next env d w it =
     (case decide env d it of
        None \<Rightarrow> (Returned, d, w, [])
      | Some (Inl e) \<Rightarrow> (Raised e, d, w, [])
      | Some (Inr (split_file, d1)) \<Rightarrow>
          (case (if split_file then rotate env d1 w else (Returned, d1, w, [])) of
             (Raised e, d2, w2, ev2) \<Rightarrow> (Raised e, d2, w2, ev2)
           | (Returned, d2, w2, ev2) \<Rightarrow>
               (case try_body env d2 w2 it split_file of
                  (Inr u, d3, w3, ev3) \<Rightarrow> (Returned, d3, w3, ev2 @ ev3)
                | (Inl e, d3, w3, ev3) \<Rightarrow>
                    (case close_file env d3 w3 of
                       (Raised e', d4, closed_events) \<Rightarrow>
                         (Raised e', d4, w3, ev2 @ ev3 @ closed_events)
                     | (Returned, d4, closed_events) \<Rightarrow>
                         (Returned, reset d4, w3, ev2 @ ev3 @ closed_events @ [EmitError e])))))"

definition on_completed :: "env \<Rightarrow> dumper \<Rightarrow> world \<Rightarrow> outcome \<times> dumper \<times> event list" where
  "on_completed env d w =
     (case close_file env d w of
        (Raised e', d1, closed_events) \<Rightarrow> (Raised e', d1, closed_events)
      | (Returned, d1, closed_events) \<Rightarrow> (Returned, reset d1, closed_events @ [EmitCompleted]))"

definition on_error :: "env \<Rightarrow> dumper \<Rightarrow> world \<Rightarrow> error \<Rightarrow> outcome \<times> dumper \<times> event list" where
  "on_error env d w e =
     (case close_file env d w of
        (Raised e', d1, closed_events) \<Rightarrow> (Raised e', d1, closed_events)
      | (Returned, d1, closed_events) \<Rightarrow> (Returned, reset d1, closed_events @ [EmitError e]))"

definition dispose :: "env \<Rightarrow> dumper \<Rightarrow> world \<Rightarrow> outcome \<times> dumper \<times> event list" where
  "dispose env d w =
     (let d0 = d\<lparr>disposed := True, last_init_item := None\<rparr>
      in case close_file env d0 w of
           (Raised e', d1, closed_events) \<Rightarrow> (Raised e', d1, closed_events)
         | (Returned, d1, closed_events) \<Rightarrow> (Returned, reset d1, closed_events))"

text \<open>
  Feeding the items of a source to \<^verbatim>\<open>on_next\<close>. Once the downstream observer has
  been sent \<^verbatim>\<open>on_error\<close> the subscription to the source is disposed of by the
  observable (reactivex detaches an observer that has been given a terminal
  notification), so the handler is not called again; neither is it after an exception
  has left it.
\<close>

fun is_terminal :: "event \<Rightarrow> bool" where
  "is_terminal (EmitError e) = True"
| "is_terminal EmitCompleted = True"
| "is_terminal _ = False"

fun feed :: "env \<Rightarrow> dumper \<Rightarrow> world \<Rightarrow> item list \<Rightarrow> outcome \<times> dumper \<times> world \<times> event list" where
  "feed env d w [] = (Returned, d, w, [])"
| "feed env d w (it # its) =
     (case on_next env d w it of
        (r, d1, w1, ev) \<Rightarrow>
          if r \<noteq> Returned \<or> list_ex is_terminal ev then (r, d1, w1, ev)
          else (case feed env d1 w1 its of (r2, d2, w2, ev2) \<Rightarrow> (r2, d2, w2, ev @ ev2)))"

subsection \<open>Reading a run\<close>

definition is_open :: "dumper \<Rightarrow> bool" where
  "is_open d = (case ofile d of None \<Rightarrow> False | Some h \<Rightarrow> \<not> is_closed h)"

text \<open>Whether a file is open after the events, given whether one was before.\<close>

fun open_after :: "bool \<Rightarrow> event list \<Rightarrow> bool" where
  "open_after b [] = b"
| "open_after b (FileOpened p t # es) = open_after True es"
| "open_after b (FileClosed p # es) = open_after False es"
| "open_after b (e # es) = open_after b es"

text \<open>
  The bytes of the file that is open, as the events tell them: a file is empty when it
  is opened and grows by the payload of each forwarded item. \<open>replay\<close> follows the
  events and fails (\<open>None\<close>) at a forwarded item whose offset is not the number of
  bytes that came before it in its file, or that was forwarded with no file open.
\<close>

fun replay :: "bytes option \<Rightarrow> event list \<Rightarrow> bytes option option" where
  "replay cur [] = Some cur"
| "replay cur (FileOpened p t # es) = replay (Some []) es"
| "replay cur (FileClosed p # es) = replay None es"
| "replay cur (EmitNext it # es) =
     (case cur of
        None \<Rightarrow> None
      | Some c \<Rightarrow> if offset it = Some (length c) then replay (Some (c @ payload it)) es else None)"
| "replay cur (EmitError e # es) = replay cur es"
| "replay cur (EmitCompleted # es) = replay cur es"

text \<open>The bytes on disk of the file the dumper has open.\<close>

definition open_content :: "dumper \<Rightarrow> world \<Rightarrow> bytes option" where
  "open_content d w = (case ofile d of None \<Rightarrow> None | Some h \<Rightarrow> disk w (fname h))"

section \<open>The analyser (hls/operators/analyser.py)\<close>

text \<open>
  The cached fields. \<^verbatim>\<open>_audio_sample_rate\<close> and \<^verbatim>\<open>_audio_channels\<close> are not
  assigned before the first profile arrives: \<open>None\<close> is the attribute that does not
  exist yet, \<open>Some JNull\<close> the value \<^verbatim>\<open>None\<close>.
\<close>

record analyser =
  video_width :: json
  video_height :: json
  audio_sample_rate :: "json option"
  audio_channels :: "json option"

definition analyser_reset :: "analyser \<Rightarrow> analyser" where
  "analyser_reset a = a\<lparr>video_width := JInt 0, video_height := JInt 0\<rparr>"

definition new_analyser :: analyser where
  "new_analyser =
     analyser_reset \<lparr>video_width = JNull, video_height = JNull,
                     audio_sample_rate = None, audio_channels = None\<rparr>"

definition on_profile_updated :: "analyser \<Rightarrow> json \<Rightarrow> error + analyser" where
  "on_profile_updated a profile =
     (case py_get profile ''streams'' (JList []) of
        Inl e \<Rightarrow> Inl e
      | Inr streams \<Rightarrow>
     (case streams_of_kind ''video'' streams of
        Inl e \<Rightarrow> Inl e
      | Inr video_profiles \<Rightarrow>
     (case streams_of_kind ''audio'' streams of
        Inl e \<Rightarrow> Inl e
      | Inr audio_profiles \<Rightarrow>
          (let a1 = (if video_profiles \<noteq> []
                     then a\<lparr>video_width := get_default (entries (hd video_profiles)) ''width'' (JInt 0),
                            video_height := get_default (entries (hd video_profiles)) ''height'' (JInt 0)\<rparr>
                     else a\<lparr>video_width := JInt 0, video_height := JInt 0\<rparr>);
               a2 = (if audio_profiles \<noteq> []
                     then a1\<lparr>audio_sample_rate :=
                                Some (get_default (entries (hd audio_profiles)) ''sample_rate'' JNull),
                             audio_channels :=
                                Some (get_default (entries (hd audio_profiles)) ''channels'' JNull)\<rparr>
                     else a1\<lparr>audio_sample_rate := Some JNull, audio_channels := Some JNull\<rparr>)
           in Inr a2))))"

text \<open>
  The handlers of \<^verbatim>\<open>_analyse\<close>: the state is reset when the subscription is made and
  when it is disposed of; items, errors and completion are passed on as they are.
\<close>

definition analyser_subscribe :: "analyser \<Rightarrow> analyser" where
  "analyser_subscribe a = analyser_reset a"

definition analyser_on_next :: "analyser \<Rightarrow> item \<Rightarrow> analyser \<times> event list" where
  "analyser_on_next a it = (a, [EmitNext it])"

definition analyser_on_error :: "analyser \<Rightarrow> error \<Rightarrow> analyser \<times> event list" where
  "analyser_on_error a e = (a, [EmitError e])"

definition analyser_on_completed :: "analyser \<Rightarrow> analyser \<times> event list" where
  "analyser_on_completed a = (a, [EmitCompleted])"

definition analyser_dispose :: "analyser \<Rightarrow> analyser" where
  "analyser_dispose a = analyser_reset a"

section \<open>Reading aids and sample inputs\<close>

definition data_profile :: json where
  "data_profile = JObj
     [(''streams'', JList
        [JObj [(''codec_type'', JStr ''data''), (''codec_name'', JStr ''bin_data'')],
         JObj [(''codec_type'', JStr ''audio''), (''codec_name'', JStr ''aac'')],
         JObj [(''codec_type'', JStr ''subtitle'')],
         JObj [(''codec_type'', JStr ''video''), (''codec_name'', JStr ''h264'')]])]"

text \<open>The keys the comparisons of the rotation decision subscript.\<close>

definition has_keys :: "string list \<Rightarrow> json \<Rightarrow> bool" where
  "has_keys ks s = list_all (\<lambda>k. field s k \<noteq> None) ks"

text \<open>
  A probe that reports one video and one audio stream, the width being the length of
  the input, and a dumper environment in which nothing fails.
\<close>

definition sample_profile :: "bytes \<Rightarrow> json" where
  "sample_profile out = JObj
     [(''streams'', JList
        [JObj [(''codec_type'', JStr ''video''), (''codec_name'', JStr ''h264''),
               (''width'', JInt (int (length out))), (''height'', JInt 720),
               (''coded_width'', JInt (int (length out))), (''coded_height'', JInt 720)],
         JObj [(''codec_type'', JStr ''audio''), (''codec_name'', JStr ''aac''),
               (''channels'', JInt 2), (''sample_rate'', JStr ''44100'')]])]"

definition sample_probe :: probe_env where
  "sample_probe = \<lparr>run_process = (\<lambda>data. Stdout data),
                    json_loads = (\<lambda>out. Inr (sample_profile out))\<rparr>"

definition ok_env :: env where
  "ok_env = \<lparr>path_provider = (\<lambda>n. (replicate (Suc n) CHR ''r'', int n)),
              with_suffix = (\<lambda>p. p @ ''.m4s''),
              open_error = (\<lambda>n. None),
              write_error = (\<lambda>n. None),
              close_error = (\<lambda>n. None),
              probe = sample_probe\<rparr>"

definition empty_world :: world where
  "empty_world = \<lparr>disk = (\<lambda>p. None), tick = 0\<rparr>"

definition init_a :: item where
  "init_a = \<lparr>kind = InitSectionData, payload = [1, 2], forced_split = False, offset = None\<rparr>"

definition init_b :: item where
  "init_b = \<lparr>kind = InitSectionData, payload = [3], forced_split = False, offset = None\<rparr>"

definition video_keys :: "string list" where
  "video_keys = [''codec_name'', ''width'', ''height'', ''coded_width'', ''coded_height'']"

definition audio_keys :: "string list" where
  "audio_keys = [''codec_name'', ''channels'', ''sample_rate'']"

text \<open>Probe environments: the process times out, prints garbage, or cannot be started.\<close>

definition timeout_env :: probe_env where
  "timeout_env = \<lparr>run_process = (\<lambda>data. CommunicateFails TimeoutExpired),
                   json_loads = (\<lambda>out. Inl JSONDecodeError)\<rparr>"

definition garbled_env :: probe_env where
  "garbled_env = \<lparr>run_process = (\<lambda>data. Stdout data),
                   json_loads = (\<lambda>out. Inl JSONDecodeError)\<rparr>"

definition missing_env :: probe_env where
  "missing_env = \<lparr>run_process = (\<lambda>data. SpawnFails OSError),
                   json_loads = (\<lambda>out. Inl JSONDecodeError)\<rparr>"

text \<open>
  The state and the file system agree: with no file open the size is 0; an open file has
  not been closed, and its position, the size and the length of its content on disk are
  the same number.
\<close>

definition consistent :: "dumper \<Rightarrow> world \<Rightarrow> bool" where
  "consistent d w =
     (case ofile d of
        None \<Rightarrow> filesize d = 0
      | Some h \<Rightarrow>
          \<not> is_closed h \<and> fpos h = filesize d \<and>
          (case disk w (fname h) of None \<Rightarrow> False | Some c \<Rightarrow> length c = filesize d))"

text \<open>The events that report a newly opened file.\<close>

fun is_file_opened :: "event \<Rightarrow> bool" where
  "is_file_opened (FileOpened p t) = True"
| "is_file_opened _ = False"

definition seg_1 :: item where
  "seg_1 = \<lparr>kind = SegmentData, payload = [9], forced_split = False, offset = None\<rparr>"

definition seg_2 :: item where
  "seg_2 = \<lparr>kind = SegmentData, payload = [7, 8], forced_split = True, offset = None\<rparr>"

definition seg_3 :: item where
  "seg_3 = \<lparr>kind = SegmentData, payload = [6], forced_split = False, offset = None\<rparr>"

text \<open>A run of four items in the environment where nothing fails, and what it gives.\<close>

definition sample_items :: "item list" where
  "sample_items = [init_a, seg_1, seg_2, seg_3]"

definition sample_events :: "event list" where
  "sample_events =
     [FileOpened ''r.m4s'' 0,
      EmitNext (init_a\<lparr>offset := Some 0\<rparr>),
      EmitNext (seg_1\<lparr>offset := Some 2\<rparr>),
      FileClosed ''r.m4s'',
      FileOpened ''rrrr.m4s'' 3,
      EmitNext (init_a\<lparr>offset := Some 0\<rparr>),
      EmitNext (seg_2\<lparr>offset := Some 2\<rparr>),
      EmitNext (seg_3\<lparr>offset := Some 4\<rparr>)]"

definition sample_final :: dumper where
  "sample_final =
     \<lparr>path = ''rrrr.m4s'',
      ofile = Some \<lparr>fname = ''rrrr.m4s'', fpos = 5, is_closed = False\<rparr>,
      filesize = 5, last_init_item = Some init_a, disposed = False\<rparr>"

definition sample_world :: world where
  "sample_world =
     \<lparr>disk = ((\<lambda>p. None)(''r.m4s'' \<mapsto> [1, 2, 9]))(''rrrr.m4s'' \<mapsto> [1, 2, 7, 8, 6]),
      tick = 7\<rparr>"

text \<open>The events that forward an item.\<close>

fun is_emit_next :: "event \<Rightarrow> bool" where
  "is_emit_next (EmitNext it) = True"
| "is_emit_next _ = False"

text \<open>
  The state and the file system once \<open>init_a\<close> has been written, an environment whose
  third call on the file system (the write of the next item) raises, and one whose
  probe times out on every input but the payload of \<open>init_a\<close>.
\<close>

definition after_init :: dumper where
  "after_init =
     \<lparr>path = ''r.m4s'',
      ofile = Some \<lparr>fname = ''r.m4s'', fpos = 2, is_closed = False\<rparr>,
      filesize = 2, last_init_item = Some init_a, disposed = False\<rparr>"

definition after_init_world :: world where
  "after_init_world = \<lparr>disk = (\<lambda>p. None)(''r.m4s'' \<mapsto> [1, 2]), tick = 2\<rparr>"

definition write_fail_env :: env where
  "write_fail_env = ok_env\<lparr>write_error := (\<lambda>n. if n = 2 then Some OSError else None)\<rparr>"

definition probe_fail_env :: env where
  "probe_fail_env =
     ok_env\<lparr>probe := \<lparr>run_process = (\<lambda>data. if data = [1, 2] then Stdout data
                                              else CommunicateFails TimeoutExpired),
                        json_loads = (\<lambda>out. Inr (sample_profile out))\<rparr>\<rparr>"

text \<open>The analyser once the sample profile of the payload \<open>[1, 2]\<close> has arrived.\<close>

definition updated_analyser :: analyser where
  "updated_analyser =
     \<lparr>video_width = JInt 2, video_height = JInt 720,
      audio_sample_rate = Some (JStr ''44100''), audio_channels = Some (JInt 2)\<rparr>"







text \<open>
  The weaker agreement that survives a \<^verbatim>\<open>close\<close> that raises: the held handle may
  have been closed.
\<close>

definition sized :: "dumper \<Rightarrow> world \<Rightarrow> bool" where
  "sized d w =
     (case ofile d of
        None \<Rightarrow> filesize d = 0
      | Some h \<Rightarrow>
          fpos h = filesize d \<and>
          (case disk w (fname h) of None \<Rightarrow> False | Some c \<Rightarrow> length c = filesize d))"

text \<open>An environment on a full disk: the third write raises, and so does every close.\<close>

definition disk_full_env :: env where
  "disk_full_env =
     ok_env\<lparr>write_error := (\<lambda>n. if n = 2 then Some OSError else None),
            close_error := (\<lambda>n. Some OSError)\<rparr>"

section \<open>Properties of stream normalisation\<close>

lemma py_eq_JStr: "py_eq t (JStr k) = (t = JStr k)"
  by (cases t) auto

lemma select_kind_sound:
  "select_kind k ss = Inr r \<Longrightarrow> s \<in> set r \<Longrightarrow> is_kind k s \<and> s \<in> set ss"
proof (induction ss arbitrary: r)
  case Nil
  then show ?case by simp
next
  case (Cons a ss)
  then show ?case
    by (cases a) (auto simp: py_eq_JStr get_default_def split: sum.splits if_splits option.splits)
qed

lemma streams_of_kind_sound:
  "streams_of_kind k streams = Inr r \<Longrightarrow> s \<in> set r \<Longrightarrow> is_kind k s"
  by (auto simp: streams_of_kind_def split: sum.splits dest: select_kind_sound)

lemma add_encoder_kind:
  "add_encoder v e = Inr v' \<Longrightarrow> is_kind k v \<Longrightarrow> is_kind k v'"
  by (cases v)
     (auto simp: add_encoder_def Let_def update_conv' split: sum.splits bool.splits if_splits)

lemma concat_nth_guarded:
  "concat (map (\<lambda>i. if i < length xs then [xs ! i] else []) [0 ..< length xs]) = xs"
proof -
  have "map (\<lambda>i. if i < length xs then [xs ! i] else []) [0 ..< length xs]
        = map (\<lambda>i. [xs ! i]) [0 ..< length xs]"
    by (rule map_cong) auto
  then show ?thesis
    by (simp only: concat_map_singleton map_nth)
qed

lemma merge_streams_Nil1: "merge_streams [] as = as"
  unfolding merge_streams_def by (simp add: concat_nth_guarded)

lemma merge_streams_Nil2: "merge_streams vs [] = vs"
  unfolding merge_streams_def by (simp add: concat_nth_guarded)

lemma upt_0_Suc_shift: "[0 ..< Suc k] = 0 # map Suc [0 ..< k]"
  by (simp add: upt_conv_Cons map_Suc_upt del: upt_Suc)

lemma merge_streams_Cons:
  "merge_streams (v # vs) (a # as) = v # a # merge_streams vs as"
  unfolding merge_streams_def
  by (simp only: length_Cons max_Suc_Suc upt_0_Suc_shift) (simp add: comp_def cong: if_cong)

lemma set_merge_streams: "set (merge_streams vs as) = set vs \<union> set as"
proof (induction vs arbitrary: as)
  case Nil
  then show ?case by (simp add: merge_streams_Nil1)
next
  case (Cons v vs)
  then show ?case
    by (cases as) (auto simp: merge_streams_Nil2 merge_streams_Cons)
qed

text \<open>What a successful normalisation returns.\<close>

lemma normalize_streams_Inr:
  assumes "normalize_streams profile = Inr out"
  shows "\<exists>p vs as v1 a1 vs' as'.
           profile = JObj p \<and>
           streams_of_kind ''video'' (get_default p ''streams'' (JList [])) = Inr vs \<and>
           streams_of_kind ''audio'' (get_default p ''streams'' (JList [])) = Inr as \<and>
           is_kind ''video'' v1 \<and> list_all (is_kind ''video'') vs' \<and>
           is_kind ''audio'' a1 \<and> list_all (is_kind ''audio'') as' \<and>
           (vs = [] \<longrightarrow> v1 = video_placeholder) \<and>
           (as = [] \<longrightarrow> a1 = audio_placeholder) \<and>
           out = JObj (AList.update ''streams'' (JList (v1 # a1 # merge_streams vs' as')) p)"
proof -
  from assms obtain p where p: "profile = JObj p"
    by (cases profile) (auto simp: normalize_streams_def)
  let ?st = "get_default p ''streams'' (JList [])"
  from assms p obtain vs where vs: "streams_of_kind ''video'' ?st = Inr vs"
    by (auto simp: normalize_streams_def Let_def split: sum.splits)
  from assms p vs obtain as where as: "streams_of_kind ''audio'' ?st = Inr as"
    by (auto simp: normalize_streams_def Let_def split: sum.splits)
  from assms p vs as obtain enc where enc: "get_encoder p = Inr enc"
    by (auto simp: normalize_streams_def Let_def split: sum.splits)
  from assms p vs as enc obtain vs1 where
    vs1: "(if vs \<noteq> [] \<and> truthy enc
           then (case add_encoder (hd vs) enc of Inl e \<Rightarrow> Inl e | Inr v \<Rightarrow> Inr (v # tl vs))
           else Inr vs) = Inr vs1"
    and out: "out = JObj (AList.update ''streams''
        (JList (merge_streams (if vs1 = [] then [video_placeholder] else vs1)
                              (if as = [] then [audio_placeholder] else as))) p)"
    by (auto simp: normalize_streams_def Let_def split: sum.splits)
  have vk: "list_all (is_kind ''video'') vs"
    using streams_of_kind_sound[OF vs] by (auto simp: list_all_iff)
  have ak: "list_all (is_kind ''audio'') as"
    using streams_of_kind_sound[OF as] by (auto simp: list_all_iff)
  have vk1: "list_all (is_kind ''video'') vs1" and emp: "(vs1 = []) = (vs = [])"
    using vs1 vk
    by (cases vs; auto split: if_splits sum.splits dest: add_encoder_kind)+
  have pv: "is_kind ''video'' video_placeholder" by (simp add: video_placeholder_def)
  have pa: "is_kind ''audio'' audio_placeholder" by (simp add: audio_placeholder_def)
  define vs2 where "vs2 = (if vs1 = [] then [video_placeholder] else vs1)"
  define as2 where "as2 = (if as = [] then [audio_placeholder] else as)"
  have vs2: "vs2 \<noteq> []" "list_all (is_kind ''video'') vs2" "vs = [] \<longrightarrow> hd vs2 = video_placeholder"
    using vk1 pv emp by (auto simp: vs2_def)
  have as2: "as2 \<noteq> []" "list_all (is_kind ''audio'') as2" "as = [] \<longrightarrow> hd as2 = audio_placeholder"
    using ak pa by (auto simp: as2_def)
  obtain v1 vs' where v: "vs2 = v1 # vs'" using vs2(1) by (cases vs2) auto
  obtain a1 as' where a: "as2 = a1 # as'" using as2(1) by (cases as2) auto
  have "out = JObj (AList.update ''streams'' (JList (v1 # a1 # merge_streams vs' as')) p)"
    using out by (simp add: vs2_def[symmetric] as2_def[symmetric] v a merge_streams_Cons)
  then show ?thesis
    using p vs as vs2 as2 v a by auto
qed

lemma profile_streams_update:
  "profile_streams (JObj (AList.update ''streams'' (JList ms) p)) = ms"
  by (simp add: profile_streams_def update_conv')


lemma select_kind_total:
  "list_all is_dict ss \<Longrightarrow> \<exists>r. select_kind k ss = Inr r"
proof (induction ss)
  case Nil
  then show ?case by simp
next
  case (Cons a ss)
  then show ?case by (cases a) auto
qed

lemma typed_stream_is_dict: "typed_stream s \<Longrightarrow> is_dict s"
  by (cases s) (auto simp: typed_stream_def)

lemma add_encoder_total:
  "typed_stream v \<Longrightarrow> \<exists>v'. add_encoder v enc = Inr v'"
proof (cases v)
  case (JObj d)
  assume "typed_stream v"
  with JObj obtain t where "get_default d ''tags'' (JObj []) = JObj t"
    by (cases "get_default d ''tags'' (JObj [])") (auto simp: typed_stream_def)
  then show ?thesis
    using JObj
    by (auto simp: add_encoder_def Let_def get_default_def update_conv'
             split: option.splits sum.splits bool.splits)
qed (auto simp: typed_stream_def)

lemma get_encoder_total:
  assumes "get_default p ''format'' (JObj []) = JObj f" "is_dict (get_default f ''tags'' (JObj []))"
  shows "\<exists>enc. get_encoder p = Inr enc"
  using assms by (cases "get_default f ''tags'' (JObj [])") (auto simp: get_encoder_def)

lemma normalize_streams_total:
  assumes "typed_profile profile"
  shows "\<exists>out. normalize_streams profile = Inr out"
proof -
  from assms obtain p where p: "profile = JObj p"
    by (cases profile) (auto simp: typed_profile_def)
  from assms p obtain ss where ss: "get_default p ''streams'' (JList []) = JList ss"
      and typed: "list_all typed_stream ss"
    by (cases "get_default p ''streams'' (JList [])") (auto simp: typed_profile_def)
  from assms p obtain f where f: "get_default p ''format'' (JObj []) = JObj f"
      and ft: "is_dict (get_default f ''tags'' (JObj []))"
    by (cases "get_default p ''format'' (JObj [])") (auto simp: typed_profile_def)
  have dicts: "list_all is_dict ss"
    using typed by (auto simp: list_all_iff dest: typed_stream_is_dict)
  obtain vs where vs: "select_kind ''video'' ss = Inr vs"
    using select_kind_total[OF dicts] by blast
  obtain as where as: "select_kind ''audio'' ss = Inr as"
    using select_kind_total[OF dicts] by blast
  obtain enc where enc: "get_encoder p = Inr enc"
    using get_encoder_total[OF f ft] by blast
  have "vs \<noteq> [] \<Longrightarrow> \<exists>v'. add_encoder (hd vs) enc = Inr v'"
  proof -
    assume "vs \<noteq> []"
    then have "hd vs \<in> set ss"
      using select_kind_sound[OF vs, of "hd vs"] by simp
    then have "typed_stream (hd vs)"
      using typed by (auto simp: list_all_iff)
    then show ?thesis by (rule add_encoder_total)
  qed
  then show ?thesis
    using p ss vs as enc
    by (auto simp: normalize_streams_def streams_of_kind_def Let_def split: sum.splits)
qed

text \<open>
  Claim C10. Normalisation drops every descriptor whose \<^verbatim>\<open>codec_type\<close> is neither
  \<^verbatim>\<open>video\<close> nor \<^verbatim>\<open>audio\<close>: it returns on every profile of the declared shape,
  and whenever it returns, every descriptor of the resulting \<^verbatim>\<open>streams\<close> list is of
  video kind or of audio kind.
\<close>

theorem normalize_streams_only_video_audio:
  "(typed_profile profile \<longrightarrow> (\<exists>out. normalize_streams profile = Inr out)) \<and>
   (\<forall>out. normalize_streams profile = Inr out \<longrightarrow>
      list_all (\<lambda>s. is_kind ''video'' s \<or> is_kind ''audio'' s) (profile_streams out))"
proof (intro conjI impI allI)
  assume "typed_profile profile"
  then show "\<exists>out. normalize_streams profile = Inr out" by (rule normalize_streams_total)
next
  fix out
  assume "normalize_streams profile = Inr out"
  from normalize_streams_Inr[OF this] obtain p v1 a1 vs' as' where
    k: "is_kind ''video'' v1" "list_all (is_kind ''video'') vs'"
       "is_kind ''audio'' a1" "list_all (is_kind ''audio'') as'"
    and out: "out = JObj (AList.update ''streams'' (JList (v1 # a1 # merge_streams vs' as')) p)"
    by blast
  show "list_all (\<lambda>s. is_kind ''video'' s \<or> is_kind ''audio'' s) (profile_streams out)"
    using k unfolding out profile_streams_update
    by (auto simp: list_all_iff set_merge_streams)
qed

lemma normalize_data_profile:
  "normalize_streams data_profile = Inr (JObj
     [(''streams'', JList
        [JObj [(''codec_type'', JStr ''video''), (''codec_name'', JStr ''h264'')],
         JObj [(''codec_type'', JStr ''audio''), (''codec_name'', JStr ''aac'')]])])"
  by (simp add: data_profile_def normalize_streams_def streams_of_kind_def get_default_def
      get_encoder_def merge_streams_def Let_def)

theorem normalize_streams_only_video_audio_witness:
  "typed_profile data_profile \<and>
   normalize_streams data_profile = Inr (JObj
     [(''streams'', JList
        [JObj [(''codec_type'', JStr ''video''), (''codec_name'', JStr ''h264'')],
         JObj [(''codec_type'', JStr ''audio''), (''codec_name'', JStr ''aac'')]])]) \<and>
   list_all (\<lambda>s. is_kind ''video'' s \<or> is_kind ''audio'' s)
     (profile_streams (JObj
     [(''streams'', JList
        [JObj [(''codec_type'', JStr ''video''), (''codec_name'', JStr ''h264'')],
         JObj [(''codec_type'', JStr ''audio''), (''codec_name'', JStr ''aac'')]])]))"
proof -
  have t: "typed_profile data_profile"
    by (simp add: data_profile_def typed_profile_def typed_stream_def get_default_def)
  show ?thesis
    using t normalize_data_profile
      normalize_streams_only_video_audio[of data_profile]
    by blast
qed

lemma find_is_kind_second:
  "\<not> P v \<Longrightarrow> P a \<Longrightarrow> find P (v # a # rest) = Some a"
  by simp












section \<open>Properties of the rotation decision\<close>

lemma ffprobe_Inr_normalized:
  "ffprobe penv data = Inr out \<Longrightarrow> \<exists>prof. normalize_streams prof = Inr out"
  by (auto simp: ffprobe_def ffprobe_run_def split: proc_outcome.splits sum.splits)

lemma find_kind_hit: "is_kind k s \<Longrightarrow> find_kind k (s # ss) = Inr s"
  by (cases s) (auto simp: get_default_def)

lemma find_kind_miss:
  "is_kind k' s \<Longrightarrow> k' \<noteq> k \<Longrightarrow> find_kind k (s # ss) = find_kind k ss"
  by (cases s) (auto simp: get_default_def)

lemma first_of_kind_normalized:
  assumes "normalize_streams prof = Inr out"
  shows "first_of_kind ''video'' out = Inr (profile_streams out ! 0)"
    and "first_of_kind ''audio'' out = Inr (profile_streams out ! 1)"
    and "is_kind ''video'' (profile_streams out ! 0)"
    and "is_kind ''audio'' (profile_streams out ! 1)"
proof -
  from normalize_streams_Inr[OF assms] obtain p v1 a1 vs' as' where
    k: "is_kind ''video'' v1" "is_kind ''audio'' a1"
    and out: "out = JObj (AList.update ''streams'' (JList (v1 # a1 # merge_streams vs' as')) p)"
    by blast
  have ps: "profile_streams out = v1 # a1 # merge_streams vs' as'"
    by (simp add: out profile_streams_update)
  show "first_of_kind ''video'' out = Inr (profile_streams out ! 0)"
    using k by (simp add: ps) (simp add: out first_of_kind_def getitem_def update_conv' find_kind_hit del: find_kind.simps)
  show "first_of_kind ''audio'' out = Inr (profile_streams out ! 1)"
    using k
    by (simp add: ps)
       (simp add: out first_of_kind_def getitem_def update_conv' find_kind_hit
          find_kind_miss[where k' = "''video''"] del: find_kind.simps)
  show "is_kind ''video'' (profile_streams out ! 0)" by (simp add: ps k)
  show "is_kind ''audio'' (profile_streams out ! 1)" by (simp add: ps k)
qed

lemma is_kind_truthy: "is_kind k s \<Longrightarrow> truthy s"
  by (cases s) auto

lemma ne_item_total:
  "field p k \<noteq> None \<Longrightarrow> field c k \<noteq> None \<Longrightarrow> \<exists>b. ne_item p c k = Inr b"
  by (cases p; cases c) (auto simp: field_def ne_item_def getitem_def)

lemma ne_get_total:
  "is_kind k1 p \<Longrightarrow> is_kind k2 c \<Longrightarrow> \<exists>b. ne_get p c k = Inr b"
  by (cases p; cases c) (auto simp: ne_get_def)

lemma or_else_total:
  "x = Inr a \<Longrightarrow> y = Inr b \<Longrightarrow> \<exists>c. or_else x y = Inr c"
  by (cases a) auto

lemma ne_item_keys:
  "has_keys ks p \<Longrightarrow> has_keys ks c \<Longrightarrow> k \<in> set ks \<Longrightarrow> \<exists>b. ne_item p c k = Inr b"
  by (auto simp: has_keys_def list_all_iff intro: ne_item_total)

lemma video_changed_total:
  assumes "has_keys [''codec_name'', ''width'', ''height'', ''coded_width'', ''coded_height''] p"
    and "has_keys [''codec_name'', ''width'', ''height'', ''coded_width'', ''coded_height''] c"
  shows "\<exists>b. video_changed p c = Inr b"
proof -
  note k = ne_item_keys[OF assms]
  obtain b1 where b1: "ne_item p c ''codec_name'' = Inr b1" using k[of "''codec_name''"] by auto
  obtain b2 where b2: "ne_item p c ''width'' = Inr b2" using k[of "''width''"] by auto
  obtain b3 where b3: "ne_item p c ''height'' = Inr b3" using k[of "''height''"] by auto
  obtain b4 where b4: "ne_item p c ''coded_width'' = Inr b4" using k[of "''coded_width''"] by auto
  obtain b5 where b5: "ne_item p c ''coded_height'' = Inr b5" using k[of "''coded_height''"] by auto
  show ?thesis
    unfolding video_changed_def b1 b2 b3 b4 b5
    by (cases b1; cases b2; cases b3; cases b4; cases b5) auto
qed

lemma audio_changed_total:
  assumes "has_keys [''codec_name'', ''channels'', ''sample_rate''] p"
    and "has_keys [''codec_name'', ''channels'', ''sample_rate''] c"
    and "is_kind ''audio'' p" "is_kind ''audio'' c"
  shows "\<exists>b. audio_changed p c = Inr b"
proof -
  note k = ne_item_keys[OF assms(1,2)]
  obtain b1 where b1: "ne_item p c ''codec_name'' = Inr b1" using k[of "''codec_name''"] by auto
  obtain b2 where b2: "ne_item p c ''channels'' = Inr b2" using k[of "''channels''"] by auto
  obtain b3 where b3: "ne_item p c ''sample_rate'' = Inr b3" using k[of "''sample_rate''"] by auto
  obtain b4 where b4: "ne_get p c ''bit_rate'' = Inr b4"
    using ne_get_total[OF assms(3,4)] by blast
  show ?thesis
    unfolding audio_changed_def b1 b2 b3 b4
    by (cases b1; cases b2; cases b3; cases b4) auto
qed

lemma must_split_file_True:
  "must_split_file env prev it = Inr (logs, b) \<Longrightarrow> b"
  by (auto simp: must_split_file_def split: if_splits sum.splits)

lemma must_split_file_first:
  "must_split_file env None it =
     (case ffprobe (probe env) (payload it) of Inl e \<Rightarrow> Inl e | Inr p \<Rightarrow> Inr ([], True))"
  by (simp add: must_split_file_def)

lemma must_split_file_total:
  assumes pp: "ffprobe (probe env) (payload prev) = Inr pp"
    and cp: "ffprobe (probe env) (payload it) = Inr cp"
    and vk: "has_keys [''codec_name'', ''width'', ''height'', ''coded_width'', ''coded_height'']
               (profile_streams pp ! 0)"
            "has_keys [''codec_name'', ''width'', ''height'', ''coded_width'', ''coded_height'']
               (profile_streams cp ! 0)"
    and ak: "has_keys [''codec_name'', ''channels'', ''sample_rate''] (profile_streams pp ! 1)"
            "has_keys [''codec_name'', ''channels'', ''sample_rate''] (profile_streams cp ! 1)"
  shows "\<exists>logs. must_split_file env (Some prev) it = Inr (logs, True)"
proof (cases "payload prev = []")
  case True
  then show ?thesis using cp by (simp add: must_split_file_def)
next
  case False
  from ffprobe_Inr_normalized[OF pp] obtain prof1 where n1: "normalize_streams prof1 = Inr pp" ..
  from ffprobe_Inr_normalized[OF cp] obtain prof2 where n2: "normalize_streams prof2 = Inr cp" ..
  note f1 = first_of_kind_normalized[OF n1]
  note f2 = first_of_kind_normalized[OF n2]
  obtain bv where bv: "video_changed (profile_streams pp ! 0) (profile_streams cp ! 0) = Inr bv"
    using video_changed_total[OF vk] by blast
  obtain ba where ba: "audio_changed (profile_streams pp ! 1) (profile_streams cp ! 1) = Inr ba"
    using audio_changed_total[OF ak f1(4) f2(4)] by blast
  show ?thesis
    using False pp cp f1 f2 bv ba
    by (simp add: must_split_file_def is_kind_truthy)
qed

lemma ffprobe_sample:
  "ffprobe sample_probe data = Inr (sample_profile data)"
  by (simp add: ffprobe_def ffprobe_run_def sample_probe_def sample_profile_def
      normalize_streams_def streams_of_kind_def get_default_def get_encoder_def
      merge_streams_def Let_def)

lemma must_split_sample:
  "must_split_file ok_env (Some init_a) init_b = Inr ([''Video parameters changed''], True)"
  by (simp add: must_split_file_def ok_env_def init_a_def init_b_def ffprobe_sample)
     (simp add: sample_profile_def first_of_kind_def getitem_def get_default_def
        audio_changed_def video_changed_def ne_item_def ne_get_def)

text \<open>
  Claim C2. The rotation decision never answers no: whenever \<^verbatim>\<open>_must_split_file\<close>
  returns, it returns true, whatever warnings the comparison of the two profiles logged.
  With no retained item it returns true as soon as the probe of the current item
  returns, with no comparison. With a retained item it does return when both probes do
  and the first descriptors carry the compared keys. So for an \<^verbatim>\<open>InitSectionData\<close>
  item that is not redundant, the handler decides to rotate and retains the item.
\<close>

theorem must_split_file_always_affirmative:
  "(\<forall>logs b. must_split_file env prev it = Inr (logs, b) \<longrightarrow> b) \<and>
   must_split_file env None it =
     (case ffprobe (probe env) (payload it) of Inl e \<Rightarrow> Inl e | Inr p \<Rightarrow> Inr ([], True)) \<and>
   (\<forall>p pp cp. prev = Some p \<and>
      ffprobe (probe env) (payload p) = Inr pp \<and> ffprobe (probe env) (payload it) = Inr cp \<and>
      has_keys video_keys (profile_streams pp ! 0) \<and> has_keys video_keys (profile_streams cp ! 0) \<and>
      has_keys audio_keys (profile_streams pp ! 1) \<and> has_keys audio_keys (profile_streams cp ! 1) \<longrightarrow>
      (\<exists>logs. must_split_file env prev it = Inr (logs, True))) \<and>
   (\<forall>logs b. kind it = InitSectionData \<and> \<not> is_redundant (last_init_item d) it \<and>
      must_split_file env (last_init_item d) it = Inr (logs, b) \<longrightarrow>
      decide env d it = Some (Inr (True, d\<lparr>last_init_item := Some it\<rparr>)))"
proof (intro conjI allI impI)
  fix logs b
  assume "must_split_file env prev it = Inr (logs, b)"
  then show b by (rule must_split_file_True)
next
  show "must_split_file env None it =
     (case ffprobe (probe env) (payload it) of Inl e \<Rightarrow> Inl e | Inr p \<Rightarrow> Inr ([], True))"
    by (rule must_split_file_first)
next
  fix p pp cp
  assume "prev = Some p \<and>
      ffprobe (probe env) (payload p) = Inr pp \<and> ffprobe (probe env) (payload it) = Inr cp \<and>
      has_keys video_keys (profile_streams pp ! 0) \<and> has_keys video_keys (profile_streams cp ! 0) \<and>
      has_keys audio_keys (profile_streams pp ! 1) \<and> has_keys audio_keys (profile_streams cp ! 1)"
  then show "\<exists>logs. must_split_file env prev it = Inr (logs, True)"
    using must_split_file_total[of env p pp it cp]
    by (simp add: video_keys_def audio_keys_def)
next
  fix logs b
  assume a: "kind it = InitSectionData \<and> \<not> is_redundant (last_init_item d) it \<and>
      must_split_file env (last_init_item d) it = Inr (logs, b)"
  then have b by (blast dest: must_split_file_True)
  with a show "decide env d it = Some (Inr (True, d\<lparr>last_init_item := Some it\<rparr>))"
    by (simp add: decide_def Let_def)
qed

theorem must_split_file_always_affirmative_witness:
  "must_split_file ok_env (Some init_a) init_b = Inr ([''Video parameters changed''], True) \<and>
   kind init_b = InitSectionData \<and>
   \<not> is_redundant (last_init_item (new_dumper\<lparr>last_init_item := Some init_a\<rparr>)) init_b \<and>
   decide ok_env (new_dumper\<lparr>last_init_item := Some init_a\<rparr>) init_b =
     Some (Inr (True, new_dumper\<lparr>last_init_item := Some init_b\<rparr>))"
proof -
  have k: "kind init_b = InitSectionData" by (simp add: init_b_def)
  have r: "\<not> is_redundant (last_init_item (new_dumper\<lparr>last_init_item := Some init_a\<rparr>)) init_b"
    by (simp add: is_redundant_def init_a_def init_b_def)
  have m: "must_split_file ok_env (last_init_item (new_dumper\<lparr>last_init_item := Some init_a\<rparr>)) init_b
           = Inr ([''Video parameters changed''], True)"
    using must_split_sample by simp
  show ?thesis
    using k r m must_split_sample
      must_split_file_always_affirmative[of ok_env "Some init_a" init_b
        "new_dumper\<lparr>last_init_item := Some init_a\<rparr>"]
    by auto
qed

section \<open>Properties of the probe\<close>

text \<open>
  Claim C7. On every exit of the probe no process is left behind. When nothing could be
  spawned there is no process. When \<^verbatim>\<open>communicate\<close> raises (the timeout) or the
  output cannot be parsed, the process is killed and then waited for before the error is
  returned: after the kill a process that was still running is dead but not reaped, after
  the wait it is reaped. On the remaining paths the process has already been waited for
  when \<^verbatim>\<open>communicate\<close> returns.
\<close>

theorem ffprobe_kills_and_reaps:
  "(run_process env data = SpawnFails e \<longrightarrow> ffprobe_run env data = ([], Inl e)) \<and>
   (run_process env data = CommunicateFails e \<longrightarrow>
      ffprobe_run env data = ([Spawn, CommunicateRaised, Kill, Wait, ContextExit], Inl e) \<and>
      proc_state_after [Spawn, CommunicateRaised] = Running \<and>
      proc_state_after [Spawn, CommunicateRaised, Kill] = Killed \<and>
      proc_state_after [Spawn, CommunicateRaised, Kill, Wait] = Reaped) \<and>
   (\<forall>out. run_process env data = Stdout out \<and> json_loads env out = Inl e \<longrightarrow>
      ffprobe_run env data = ([Spawn, CommunicateReturned, Kill, Wait, ContextExit], Inl e)) \<and>
   (proc_state_after (fst (ffprobe_run env data)) = NoProcess \<or>
    proc_state_after (fst (ffprobe_run env data)) = Reaped)"
  by (auto simp: ffprobe_run_def proc_state_after_def split: proc_outcome.splits sum.splits)

theorem ffprobe_kills_and_reaps_witness:
  "ffprobe_run timeout_env [1, 2] = ([Spawn, CommunicateRaised, Kill, Wait, ContextExit], Inl TimeoutExpired) \<and>
   ffprobe_run garbled_env [1, 2] = ([Spawn, CommunicateReturned, Kill, Wait, ContextExit], Inl JSONDecodeError) \<and>
   ffprobe_run missing_env [1, 2] = ([], Inl OSError) \<and>
   proc_state_after (fst (ffprobe_run timeout_env [1, 2])) = Reaped"
proof -
  have a: "run_process timeout_env [1, 2] = CommunicateFails TimeoutExpired"
    by (simp add: timeout_env_def)
  have b: "run_process garbled_env [1, 2] = Stdout [1, 2] \<and> json_loads garbled_env [1, 2] = Inl JSONDecodeError"
    by (simp add: garbled_env_def)
  have c: "run_process missing_env [1, 2] = SpawnFails OSError"
    by (simp add: missing_env_def)
  show ?thesis
    using a b c
      ffprobe_kills_and_reaps[of timeout_env "[1, 2]" TimeoutExpired]
      ffprobe_kills_and_reaps[of garbled_env "[1, 2]" JSONDecodeError]
      ffprobe_kills_and_reaps[of missing_env "[1, 2]" OSError]
    by (simp add: proc_state_after_def)
qed

section \<open>Properties of the segment dumper\<close>

lemma feed_skip:
  "on_next env d w it = (Returned, d, w, []) \<Longrightarrow> feed env d w (it # rest) = feed env d w rest"
  by (cases "feed env d w rest") simp

text \<open>
  Claim C4. An \<^verbatim>\<open>InitSectionData\<close> item whose payload equals that of the retained one
  is dropped: the handler returns with the state and the files unchanged (the retained
  item stays the reference, nothing is written, no file is opened or closed) and with no
  event sent, and the run goes on with the next item.
\<close>

theorem redundant_init_dropped:
  assumes "kind it = InitSectionData"
    and "last_init_item d = Some prev"
    and "payload it = payload prev"
  shows "on_next env d w it = (Returned, d, w, []) \<and>
         feed env d w (it # rest) = feed env d w rest"
proof -
  have "decide env d it = None"
    using assms by (simp add: decide_def is_redundant_def)
  then have "on_next env d w it = (Returned, d, w, [])"
    by (simp add: on_next_def)
  then show ?thesis by (simp add: feed_skip)
qed

theorem redundant_init_dropped_witness:
  "on_next ok_env (new_dumper\<lparr>last_init_item := Some init_a\<rparr>) empty_world
     (init_a\<lparr>forced_split := True\<rparr>)
   = (Returned, new_dumper\<lparr>last_init_item := Some init_a\<rparr>, empty_world, []) \<and>
   feed ok_env (new_dumper\<lparr>last_init_item := Some init_a\<rparr>) empty_world
     [init_a\<lparr>forced_split := True\<rparr>]
   = (Returned, new_dumper\<lparr>last_init_item := Some init_a\<rparr>, empty_world, [])"
  using redundant_init_dropped[of "init_a\<lparr>forced_split := True\<rparr>"
      "new_dumper\<lparr>last_init_item := Some init_a\<rparr>" init_a ok_env empty_world "[]"]
  by (simp add: init_a_def)

lemma write_at_end: "p = length c \<Longrightarrow> write_at c p data = c @ data"
  by (simp add: write_at_def)

lemma replay_append:
  "replay cur (es @ fs) = (case replay cur es of None \<Rightarrow> None | Some c \<Rightarrow> replay c fs)"
proof (induction es arbitrary: cur)
  case Nil
  then show ?case by simp
next
  case (Cons e es)
  then show ?case by (cases e) (auto split: option.splits)
qed

lemma consistent_last_init [simp]:
  "consistent (d\<lparr>last_init_item := x\<rparr>) w = consistent d w"
  by (simp add: consistent_def split: option.splits)

lemma open_content_last_init [simp]:
  "open_content (d\<lparr>last_init_item := x\<rparr>) w = open_content d w"
  by (simp add: open_content_def)

lemma consistent_sized: "consistent d w \<Longrightarrow> sized d w"
  by (auto simp: consistent_def sized_def split: option.splits)

lemma close_file_replay:
  assumes "consistent d w" "close_file env d w = (Returned, d1, ev)"
  shows "replay (open_content d w) ev = Some None"
    and "consistent (reset d1) w'" and "open_content (reset d1) w' = None"
  using assms
  by (auto simp: consistent_def close_file_def open_content_def reset_def
           split: option.splits if_splits)

lemma close_file_raised:
  assumes "consistent d w" "close_file env d w = (Raised e, d1, ev)"
  shows "ev = [] \<and> sized d1 w \<and> open_content d1 w = open_content d w"
  using assms
  by (auto simp: consistent_def sized_def close_file_def open_content_def
           split: option.splits if_splits)

lemma open_file_replay:
  assumes "ofile d = None" "filesize d = 0" "open_file env d w = (r, d2, w2, ev)"
  shows "replay None ev = Some (open_content d2 w2) \<and> consistent d2 w2"
  using assms
  by (auto simp: open_file_def consistent_def open_content_def Let_def
           split: prod.splits option.splits)

lemma rotate_replay:
  assumes "consistent d w" "rotate env d w = (r, d2, w2, ev)"
  shows "replay (open_content d w) ev = Some (open_content d2 w2) \<and> sized d2 w2 \<and>
         (r = Returned \<longrightarrow> consistent d2 w2)"
proof -
  obtain rc d1 ce where c: "close_file env d w = (rc, d1, ce)"
    by (cases "close_file env d w") auto
  show ?thesis
  proof (cases rc)
    case (Raised e)
    with assms(2) c have "r = Raised e" "d2 = d1" "w2 = w" "ev = ce"
      by (auto simp: rotate_def)
    with close_file_raised[OF assms(1) c[unfolded Raised]] show ?thesis by simp
  next
    case Returned
    obtain r' d2' w2' oe where o: "open_file env (reset d1) w = (r', d2', w2', oe)"
      by (cases "open_file env (reset d1) w") auto
    from assms(2) c Returned o have eq: "d2 = d2'" "w2 = w2'" "ev = ce @ oe"
      by (auto simp: rotate_def)
    have "ofile (reset d1) = None" "filesize (reset d1) = 0" by (simp_all add: reset_def)
    from open_file_replay[OF this o] close_file_replay(1)[OF assms(1) c[unfolded Returned]]
    show ?thesis by (simp add: eq replay_append consistent_sized)
  qed
qed

lemma dump_item_replay:
  assumes "consistent d w" "dump_item env d w it = (res, d1, w1, ev)"
  shows "replay (open_content d w) ev = Some (open_content d1 w1) \<and> consistent d1 w1 \<and>
         last_init_item d1 = last_init_item d"
  using assms
  by (auto simp: dump_item_def write_data_def consistent_def open_content_def Let_def
        update_filesize_def write_at_end
      split: option.splits if_splits prod.splits sum.splits)

lemma try_body_replay:
  assumes "consistent d w" "try_body env d w it sf = (res, d1, w1, ev)"
  shows "replay (open_content d w) ev = Some (open_content d1 w1) \<and> consistent d1 w1"
proof (cases "sf \<and> kind it \<noteq> InitSectionData")
  case False
  then have "dump_item env d w it = (res, d1, w1, ev)"
    using assms(2) by (auto simp: try_body_def split: prod.splits)
  from dump_item_replay[OF assms(1) this] show ?thesis by simp
next
  case True
  show ?thesis
  proof (cases "last_init_item d")
    case None
    with True assms show ?thesis by (auto simp: try_body_def)
  next
    case (Some li)
    obtain res0 d0 w0 ev0 where a: "dump_item env d w li = (res0, d0, w0, ev0)"
      by (cases "dump_item env d w li") auto
    note r0 = dump_item_replay[OF assms(1) a]
    show ?thesis
    proof (cases res0)
      case (Inl e)
      with True Some a assms(2) r0 show ?thesis by (auto simp: try_body_def)
    next
      case (Inr u)
      obtain res2 d2 w2 ev2 where b: "dump_item env d0 w0 it = (res2, d2, w2, ev2)"
        by (cases "dump_item env d0 w0 it") auto
      from r0 have c0: "consistent d0 w0" by simp
      note r2 = dump_item_replay[OF c0 b]
      from True Some a Inr b assms(2) have "d1 = d2" "w1 = w2" "ev = ev0 @ ev2"
        by (auto simp: try_body_def)
      with r0 r2 show ?thesis by (simp add: replay_append)
    qed
  qed
qed

lemma decide_state:
  assumes "decide env d it = Some (Inr (sf, d1))"
  shows "consistent d1 w = consistent d w" and "open_content d1 w = open_content d w"
  using assms
  by (auto simp: decide_def Let_def split: if_splits sum.splits prod.splits)

lemma decide_fields:
  assumes "decide env d it = Some (Inr (sf, d1))"
  shows "ofile d1 = ofile d" and "path d1 = path d" and "filesize d1 = filesize d"
  using assms
  by (auto simp: decide_def Let_def split: if_splits sum.splits prod.splits)

lemma on_next_replay:
  assumes c: "consistent d w" and n: "on_next env d w it = (r, d', w', ev)"
  shows "replay (open_content d w) ev = Some (open_content d' w') \<and> sized d' w' \<and>
         (r = Returned \<longrightarrow> consistent d' w')"
proof (cases "decide env d it")
  case None
  with n c show ?thesis by (simp add: on_next_def consistent_sized)
next
  case (Some dec)
  show ?thesis
  proof (cases dec)
    case (Inl e)
    with Some n c show ?thesis by (simp add: on_next_def consistent_sized)
  next
    case (Inr p)
    obtain sf d1 where p: "p = (sf, d1)" by (cases p)
    note dec = Some[unfolded Inr p]
    note ds = decide_state[OF dec, of w]
    from c ds have c1: "consistent d1 w" by simp
    define step where "step = (if sf then rotate env d1 w else (Returned, d1, w, []))"
    obtain r2 d2 w2 ev2 where s: "step = (r2, d2, w2, ev2)" by (cases step) auto
    have r2: "replay (open_content d w) ev2 = Some (open_content d2 w2) \<and> sized d2 w2 \<and>
              (r2 = Returned \<longrightarrow> consistent d2 w2)"
    proof (cases sf)
      case True
      with s have "rotate env d1 w = (r2, d2, w2, ev2)" by (simp add: step_def)
      from rotate_replay[OF c1 this] ds show ?thesis by simp
    next
      case False
      with s c1 ds show ?thesis by (auto simp: step_def consistent_sized)
    qed
    show ?thesis
    proof (cases r2)
      case (Raised e)
      with n dec s r2 show ?thesis
        by (simp add: on_next_def step_def[symmetric])
    next
      case Returned
      obtain res d3 w3 ev3 where t: "try_body env d2 w2 it sf = (res, d3, w3, ev3)"
        by (cases "try_body env d2 w2 it sf") auto
      from r2 Returned have c2: "consistent d2 w2" by simp
      note r3 = try_body_replay[OF c2 t]
      show ?thesis
      proof (cases res)
        case (Inr u)
        with n dec s Returned t have "r = Returned" "d' = d3" "w' = w3" "ev = ev2 @ ev3"
          by (simp_all add: on_next_def step_def[symmetric])
        with r2 r3 show ?thesis by (simp add: replay_append consistent_sized)
      next
        case (Inl e)
        obtain rc d4 ce where cl: "close_file env d3 w3 = (rc, d4, ce)"
          by (cases "close_file env d3 w3") auto
        from r3 have c3: "consistent d3 w3" by simp
        show ?thesis
        proof (cases rc)
          case Returned': Returned
          note r4 = close_file_replay[OF c3 cl[unfolded Returned']]
          from n dec s Returned t Inl cl Returned'
          have "r = Returned" "d' = reset d4" "w' = w3" "ev = ev2 @ ev3 @ ce @ [EmitError e]"
            by (simp_all add: on_next_def step_def[symmetric])
          with r2 r3 r4 show ?thesis by (simp add: replay_append consistent_sized)
        next
          case (Raised e')
          note r4 = close_file_raised[OF c3 cl[unfolded Raised]]
          from n dec s Returned t Inl cl Raised
          have "r = Raised e'" "d' = d4" "w' = w3" "ev = ev2 @ ev3 @ ce"
            by (simp_all add: on_next_def step_def[symmetric])
          with r2 r3 r4 show ?thesis by (simp add: replay_append)
        qed
      qed
    qed
  qed
qed

lemma feed_replay:
  assumes "consistent d w" "feed env d w items = (r, d', w', evs)"
  shows "replay (open_content d w) evs = Some (open_content d' w') \<and> sized d' w' \<and>
         (r = Returned \<longrightarrow> consistent d' w')"
  using assms
proof (induction items arbitrary: d w r d' w' evs)
  case Nil
  then show ?case by (simp add: consistent_sized)
next
  case (Cons it items)
  obtain r1 d1 w1 ev1 where n: "on_next env d w it = (r1, d1, w1, ev1)"
    by (cases "on_next env d w it") auto
  note s1 = on_next_replay[OF Cons.prems(1) n]
  show ?case
  proof (cases "r1 \<noteq> Returned \<or> list_ex is_terminal ev1")
    case True
    with Cons.prems(2) n s1 show ?thesis by auto
  next
    case False
    obtain r2 d2 w2 ev2 where f: "feed env d1 w1 items = (r2, d2, w2, ev2)"
      by (cases "feed env d1 w1 items") auto
    from s1 False have c1: "consistent d1 w1" by simp
    note s2 = Cons.IH[OF c1 f]
    from False Cons.prems(2) n f have "r = r2" "d' = d2" "w' = w2" "evs = ev1 @ ev2"
      by auto
    with s1 s2 show ?thesis by (simp add: replay_append)
  qed
qed

lemma consistent_new_dumper: "consistent new_dumper w"
  by (simp add: consistent_def new_dumper_def)

lemma sized_filesize:
  "sized d w \<Longrightarrow>
     filesize d = (case open_content d w of None \<Rightarrow> 0 | Some c \<Rightarrow> length c) \<and>
     (ofile d = None) = (open_content d w = None)"
  by (auto simp: sized_def open_content_def split: option.splits)

text \<open>
  Claim C1. Through every run of items, from a state that agrees with the file system
  (as the state of a new dumper does): the events replay, so each forwarded item carries
  as its offset the number of bytes written to its file before it; the bytes the events
  add up for the open file are the bytes of that file on disk; and the size the dumper
  reports is their number, which is 0 when no file is open. As this holds for every
  list of items, it holds after each item of a run. The state agrees with the file
  system again whenever the run has not ended in an exception.
\<close>

theorem offsets_and_filesize:
  assumes "consistent d w" and "feed env d w items = (r, d', w', evs)"
  shows "replay (open_content d w) evs = Some (open_content d' w') \<and>
         filesize d' = (case open_content d' w' of None \<Rightarrow> 0 | Some c \<Rightarrow> length c) \<and>
         (ofile d' = None) = (open_content d' w' = None) \<and>
         (r = Returned \<longrightarrow> consistent d' w')"
  using feed_replay[OF assms] sized_filesize[of d' w'] by simp

lemma on_next_init_item:
  assumes "kind it = InitSectionData"
    and "\<not> is_redundant (last_init_item d) it"
    and "must_split_file env (last_init_item d) it = Inr (logs, b)"
    and "close_error env (tick w) = None"
    and "open_error env (tick w) = None"
    and "write_error env (Suc (tick w)) = None"
    and "path_provider env (tick w) = (base, ts)"
  shows "on_next env d w it =
     (Returned,
      d\<lparr>path := with_suffix env base,
        ofile := Some \<lparr>fname = with_suffix env base, fpos = length (payload it), is_closed = False\<rparr>,
        filesize := length (payload it),
        last_init_item := Some it\<rparr>,
      w\<lparr>tick := Suc (Suc (tick w)),
        disk := (disk w)(with_suffix env base \<mapsto> payload it)\<rparr>,
      (if is_open d then [FileClosed (path d)] else []) @
      [FileOpened (with_suffix env base) ts, EmitNext (it\<lparr>offset := Some 0\<rparr>)])"
proof -
  have b using assms(3) by (rule must_split_file_True)
  then have dec: "decide env d it = Some (Inr (True, d\<lparr>last_init_item := Some it\<rparr>))"
    using assms(1-3) by (simp add: decide_def)
  show ?thesis
    using assms(1,4-7)
    by (simp add: on_next_def dec rotate_def close_file_def reset_def open_file_def
          try_body_def dump_item_def write_data_def update_filesize_def write_at_def Let_def
          is_open_def
        split: option.splits)
qed

lemma on_next_plain_segment:
  assumes "kind it = SegmentData"
    and "\<not> forced_split it"
    and "ofile d = Some h" and "\<not> is_closed h"
    and "write_error env (tick w) = None"
    and "disk w (fname h) = Some c" and "fpos h = length c"
  shows "on_next env d w it =
     (Returned,
      d\<lparr>ofile := Some (h\<lparr>fpos := length c + length (payload it)\<rparr>),
        filesize := filesize d + length (payload it)\<rparr>,
      w\<lparr>tick := Suc (tick w), disk := (disk w)(fname h \<mapsto> c @ payload it)\<rparr>,
      [EmitNext (it\<lparr>offset := Some (length c)\<rparr>)])"
  using assms
  by (simp add: on_next_def decide_def need_split_file_def
        try_body_def dump_item_def write_data_def update_filesize_def write_at_end Let_def)

lemma on_next_split_segment:
  assumes "kind it = SegmentData"
    and "forced_split it"
    and "last_init_item d = Some li"
    and "close_error env (tick w) = None"
    and "open_error env (tick w) = None"
    and "write_error env (Suc (tick w)) = None"
    and "write_error env (Suc (Suc (tick w))) = None"
    and "path_provider env (tick w) = (base, ts)"
  shows "on_next env d w it =
     (Returned,
      d\<lparr>path := with_suffix env base,
        ofile := Some \<lparr>fname = with_suffix env base,
                       fpos = length (payload li) + length (payload it), is_closed = False\<rparr>,
        filesize := length (payload li) + length (payload it)\<rparr>,
      w\<lparr>tick := Suc (Suc (Suc (tick w))),
        disk := (disk w)(with_suffix env base \<mapsto> payload li @ payload it)\<rparr>,
      (if is_open d then [FileClosed (path d)] else []) @
      [FileOpened (with_suffix env base) ts,
       EmitNext (li\<lparr>offset := Some 0\<rparr>),
       EmitNext (it\<lparr>offset := Some (length (payload li))\<rparr>)])"
  using assms
  by (simp add: on_next_def decide_def need_split_file_def rotate_def close_file_def reset_def
        open_file_def try_body_def dump_item_def write_data_def update_filesize_def
        write_at_def Let_def is_open_def
      split: option.splits)

lemma is_open_new [simp]: "\<not> is_open new_dumper"
  by (simp add: is_open_def new_dumper_def)

text \<open>
  Claim C3. A new dumper is fed an \<^verbatim>\<open>InitSectionData\<close> item, a segment, a segment
  with the forced-split flag and a last segment, and the probe, the opens, the writes
  and the close succeed. Then two files are opened; the rotation at the flagged segment closes the
  first file, opens the second, writes the retained initialisation payload into it and
  forwards a copy of that item with offset 0, then writes the flagged segment; the
  second file holds the three payloads in this order.
\<close>

theorem forced_split_scenario:
  assumes kinds: "kind ia = InitSectionData" "kind s1 = SegmentData"
      "kind s2 = SegmentData" "kind s3 = SegmentData"
    and flags: "\<not> forced_split s1" "forced_split s2" "\<not> forced_split s3"
    and probe_ok: "ffprobe (probe env) (payload ia) = Inr prof"
    and io_ok: "\<forall>n. open_error env n = None" "\<forall>n. write_error env n = None"
      "\<forall>n. close_error env n = None"
    and paths: "path_provider env (tick w) = (base1, ts1)"
      "path_provider env (tick w + 3) = (base2, ts2)"
  shows "\<exists>d' w'.
     feed env new_dumper w [ia, s1, s2, s3] =
       (Returned, d', w',
        [FileOpened (with_suffix env base1) ts1,
         EmitNext (ia\<lparr>offset := Some 0\<rparr>),
         EmitNext (s1\<lparr>offset := Some (length (payload ia))\<rparr>),
         FileClosed (with_suffix env base1),
         FileOpened (with_suffix env base2) ts2,
         EmitNext (ia\<lparr>offset := Some 0\<rparr>),
         EmitNext (s2\<lparr>offset := Some (length (payload ia))\<rparr>),
         EmitNext (s3\<lparr>offset := Some (length (payload ia) + length (payload s2))\<rparr>)]) \<and>
     length (filter is_file_opened (snd (snd (snd (feed env new_dumper w [ia, s1, s2, s3]))))) = 2 \<and>
     disk w' (with_suffix env base2) = Some (payload ia @ payload s2 @ payload s3) \<and>
     path d' = with_suffix env base2 \<and>
     filesize d' = length (payload ia) + length (payload s2) + length (payload s3)"
proof -
  let ?p1 = "with_suffix env base1" and ?p2 = "with_suffix env base2"
  let ?A = "payload ia" and ?S1 = "payload s1" and ?S2 = "payload s2" and ?S3 = "payload s3"
  define d1 where "d1 = new_dumper\<lparr>path := ?p1,
        ofile := Some \<lparr>fname = ?p1, fpos = length ?A, is_closed = False\<rparr>,
        filesize := length ?A, last_init_item := Some ia\<rparr>"
  define w1 where "w1 = w\<lparr>tick := Suc (Suc (tick w)), disk := (disk w)(?p1 \<mapsto> ?A)\<rparr>"
  define d2 where "d2 = d1\<lparr>ofile := Some \<lparr>fname = ?p1, fpos = length ?A + length ?S1, is_closed = False\<rparr>,
        filesize := filesize d1 + length ?S1\<rparr>"
  define w2 where "w2 = w1\<lparr>tick := Suc (tick w1), disk := (disk w1)(?p1 \<mapsto> ?A @ ?S1)\<rparr>"
  define d3 where "d3 = d2\<lparr>path := ?p2,
        ofile := Some \<lparr>fname = ?p2, fpos = length ?A + length ?S2, is_closed = False\<rparr>,
        filesize := length ?A + length ?S2\<rparr>"
  define w3 where "w3 = w2\<lparr>tick := Suc (Suc (Suc (tick w2))), disk := (disk w2)(?p2 \<mapsto> ?A @ ?S2)\<rparr>"
  define d4 where "d4 = d3\<lparr>ofile := Some \<lparr>fname = ?p2, fpos = length (?A @ ?S2) + length ?S3, is_closed = False\<rparr>,
        filesize := filesize d3 + length ?S3\<rparr>"
  define w4 where "w4 = w3\<lparr>tick := Suc (tick w3), disk := (disk w3)(?p2 \<mapsto> (?A @ ?S2) @ ?S3)\<rparr>"
  have m: "must_split_file env (last_init_item new_dumper) ia = Inr ([], True)"
    using probe_ok by (simp add: new_dumper_def must_split_file_def)
  have nr: "\<not> is_redundant (last_init_item new_dumper) ia"
    by (simp add: new_dumper_def is_redundant_def)
  have n1: "on_next env new_dumper w ia =
      (Returned, d1, w1, [FileOpened ?p1 ts1, EmitNext (ia\<lparr>offset := Some 0\<rparr>)])"
    using on_next_init_item[OF kinds(1) nr m _ _ _ paths(1)] io_ok
    by (simp add: d1_def w1_def)
  have n2: "on_next env d1 w1 s1 =
      (Returned, d2, w2, [EmitNext (s1\<lparr>offset := Some (length ?A)\<rparr>)])"
    using on_next_plain_segment[OF kinds(2) flags(1), of d1
        "\<lparr>fname = ?p1, fpos = length ?A, is_closed = False\<rparr>" env w1 ?A] io_ok
    by (simp add: d1_def w1_def d2_def w2_def)
  have t2: "tick w2 = tick w + 3" by (simp add: w2_def w1_def)
  have n3: "on_next env d2 w2 s2 =
      (Returned, d3, w3,
       [FileClosed ?p1, FileOpened ?p2 ts2, EmitNext (ia\<lparr>offset := Some 0\<rparr>),
        EmitNext (s2\<lparr>offset := Some (length ?A)\<rparr>)])"
    using on_next_split_segment[OF kinds(3) flags(2), of d2 ia env w2 base2 ts2] io_ok paths(2)
    by (simp add: t2 d3_def) (simp add: d2_def d1_def w3_def is_open_def t2)
  have n4: "on_next env d3 w3 s3 =
      (Returned, d4, w4, [EmitNext (s3\<lparr>offset := Some (length ?A + length ?S2)\<rparr>)])"
    using on_next_plain_segment[OF kinds(4) flags(3), of d3
        "\<lparr>fname = ?p2, fpos = length ?A + length ?S2, is_closed = False\<rparr>" env w3 "?A @ ?S2"] io_ok
    by (simp add: d3_def w3_def d4_def w4_def)
  have f: "feed env new_dumper w [ia, s1, s2, s3] =
       (Returned, d4, w4,
        [FileOpened ?p1 ts1, EmitNext (ia\<lparr>offset := Some 0\<rparr>),
         EmitNext (s1\<lparr>offset := Some (length ?A)\<rparr>),
         FileClosed ?p1, FileOpened ?p2 ts2, EmitNext (ia\<lparr>offset := Some 0\<rparr>),
         EmitNext (s2\<lparr>offset := Some (length ?A)\<rparr>),
         EmitNext (s3\<lparr>offset := Some (length ?A + length ?S2)\<rparr>)])"
    by (simp add: n1 n2 n3 n4)
  have "disk w4 ?p2 = Some (?A @ ?S2 @ ?S3)" by (simp add: w4_def)
  moreover have "path d4 = ?p2" by (simp add: d4_def d3_def)
  moreover have "filesize d4 = length ?A + length ?S2 + length ?S3"
    by (simp add: d4_def d3_def)
  ultimately show ?thesis
    using f by simp
qed

lemma feed_sample:
  "feed ok_env new_dumper empty_world sample_items =
     (Returned, sample_final, sample_world, sample_events)"
  by (simp add: sample_items_def sample_final_def sample_world_def sample_events_def
        init_a_def seg_1_def seg_2_def seg_3_def ok_env_def empty_world_def new_dumper_def
        on_next_def decide_def is_redundant_def must_split_file_def ffprobe_sample
        need_split_file_def rotate_def close_file_def reset_def open_file_def
        try_body_def dump_item_def write_data_def update_filesize_def write_at_def Let_def)

theorem offsets_and_filesize_witness:
  "consistent new_dumper empty_world \<and>
   feed ok_env new_dumper empty_world sample_items =
     (Returned, sample_final, sample_world, sample_events) \<and>
   replay None sample_events = Some (Some [1, 2, 7, 8, 6]) \<and>
   open_content sample_final sample_world = Some [1, 2, 7, 8, 6] \<and>
   filesize sample_final = 5"
proof -
  have c: "consistent new_dumper empty_world" by (rule consistent_new_dumper)
  have o: "open_content new_dumper empty_world = None"
    by (simp add: open_content_def new_dumper_def)
  have oc: "open_content sample_final sample_world = Some [1, 2, 7, 8, 6]"
    by (simp add: open_content_def sample_final_def sample_world_def)
  show ?thesis
    using c o oc feed_sample offsets_and_filesize[OF c feed_sample]
    by simp
qed

theorem forced_split_scenario_witness:
  "\<exists>d' w'.
     feed ok_env new_dumper empty_world [init_a, seg_1, seg_2, seg_3] =
       (Returned, d', w',
        [FileOpened ''r.m4s'' 0,
         EmitNext (init_a\<lparr>offset := Some 0\<rparr>),
         EmitNext (seg_1\<lparr>offset := Some 2\<rparr>),
         FileClosed ''r.m4s'',
         FileOpened ''rrrr.m4s'' 3,
         EmitNext (init_a\<lparr>offset := Some 0\<rparr>),
         EmitNext (seg_2\<lparr>offset := Some 2\<rparr>),
         EmitNext (seg_3\<lparr>offset := Some 4\<rparr>)]) \<and>
     disk w' ''rrrr.m4s'' = Some [1, 2, 7, 8, 6] \<and>
     path d' = ''rrrr.m4s'' \<and> filesize d' = 5"
proof -
  have k: "kind init_a = InitSectionData" "kind seg_1 = SegmentData"
    "kind seg_2 = SegmentData" "kind seg_3 = SegmentData"
    by (simp_all add: init_a_def seg_1_def seg_2_def seg_3_def)
  have fl: "\<not> forced_split seg_1" "forced_split seg_2" "\<not> forced_split seg_3"
    by (simp_all add: seg_1_def seg_2_def seg_3_def)
  have p: "ffprobe (probe ok_env) (payload init_a) = Inr (sample_profile (payload init_a))"
    by (simp add: ok_env_def ffprobe_sample)
  have io: "\<forall>n. open_error ok_env n = None" "\<forall>n. write_error ok_env n = None"
    "\<forall>n. close_error ok_env n = None"
    by (simp_all add: ok_env_def)
  have pp: "path_provider ok_env (tick empty_world) = (''r'', 0)"
    "path_provider ok_env (tick empty_world + 3) = (''rrrr'', 3)"
    by (simp_all add: ok_env_def empty_world_def eval_nat_numeral)
  have ws: "with_suffix ok_env ''r'' = ''r.m4s''" "with_suffix ok_env ''rrrr'' = ''rrrr.m4s''"
    by (simp_all add: ok_env_def)
  have ls: "length (payload init_a) = 2" "length (payload seg_2) = 2"
    "payload init_a @ payload seg_2 @ payload seg_3 = [1, 2, 7, 8, 6]"
    "length (payload seg_3) = 1"
    by (simp_all add: init_a_def seg_2_def seg_3_def)
  from forced_split_scenario[OF k fl p io pp] obtain d' w' where
    "feed ok_env new_dumper empty_world [init_a, seg_1, seg_2, seg_3] =
       (Returned, d', w',
        [FileOpened ''r.m4s'' 0,
         EmitNext (init_a\<lparr>offset := Some 0\<rparr>),
         EmitNext (seg_1\<lparr>offset := Some 2\<rparr>),
         FileClosed ''r.m4s'',
         FileOpened ''rrrr.m4s'' 3,
         EmitNext (init_a\<lparr>offset := Some 0\<rparr>),
         EmitNext (seg_2\<lparr>offset := Some 2\<rparr>),
         EmitNext (seg_3\<lparr>offset := Some 4\<rparr>)])"
    "disk w' ''rrrr.m4s'' = Some [1, 2, 7, 8, 6]"
    "path d' = ''rrrr.m4s''" "filesize d' = 5"
    unfolding ws ls by (auto simp del: feed.simps)
  then show ?thesis by blast
qed

lemma open_after_append:
  "open_after b (es @ fs) = open_after (open_after b es) fs"
  by (induction b es rule: open_after.induct) auto

lemma open_after_emit_next:
  "list_all is_emit_next es \<Longrightarrow> open_after b es = b"
  by (induction b es rule: open_after.induct) auto

lemma close_file_events:
  "close_file env d w = (Returned, d1, ev) \<Longrightarrow>
     ev = (if is_open d then [FileClosed (path d)] else []) \<and> \<not> open_after (is_open d) ev \<and>
     reset d1 = reset d"
  by (auto simp: close_file_def is_open_def reset_def split: option.splits if_splits)

lemma close_file_raised_events:
  "close_file env d w = (Raised e, d1, ev) \<Longrightarrow>
     ev = [] \<and> is_open d \<and> \<not> is_open d1 \<and> path d1 = path d \<and> filesize d1 = filesize d \<and>
     close_error env (tick w) = Some e"
  by (auto simp: close_file_def is_open_def split: option.splits if_splits)

lemma rotate_events:
  assumes "rotate env d w = (r, d2, w2, ev)"
  shows "r = Returned \<longrightarrow> open_after (is_open d) ev = is_open d2" and "EmitError e \<notin> set ev"
  using assms
  by (auto simp: rotate_def close_file_def open_file_def reset_def is_open_def Let_def
      split: option.splits if_splits prod.splits)

lemma dump_item_events:
  assumes "dump_item env d w it = (res, d1, w1, ev)"
  shows "list_all is_emit_next ev" and "is_open d1 = is_open d" and "path d1 = path d"
  using assms
  by (auto simp: dump_item_def write_data_def update_filesize_def is_open_def Let_def
      split: option.splits if_splits prod.splits sum.splits)

lemma try_body_events:
  assumes "try_body env d w it sf = (res, d1, w1, ev)"
  shows "list_all is_emit_next ev \<and> is_open d1 = is_open d \<and> path d1 = path d"
proof (cases "sf \<and> kind it \<noteq> InitSectionData")
  case False
  then have "dump_item env d w it = (res, d1, w1, ev)"
    using assms by (auto simp: try_body_def split: prod.splits)
  from dump_item_events[OF this] show ?thesis by simp
next
  case True
  show ?thesis
  proof (cases "last_init_item d")
    case None
    with True assms show ?thesis by (auto simp: try_body_def)
  next
    case (Some li)
    obtain res0 d0 w0 ev0 where a: "dump_item env d w li = (res0, d0, w0, ev0)"
      by (cases "dump_item env d w li") auto
    note r0 = dump_item_events[OF a]
    show ?thesis
    proof (cases res0)
      case (Inl e)
      with True Some a assms r0 show ?thesis by (auto simp: try_body_def)
    next
      case (Inr u)
      obtain res2 d2 w2 ev2 where b: "dump_item env d0 w0 it = (res2, d2, w2, ev2)"
        by (cases "dump_item env d0 w0 it") auto
      note r2 = dump_item_events[OF b]
      from True Some a Inr b assms have "d1 = d2" "ev = ev0 @ ev2"
        by (auto simp: try_body_def)
      with r0 r2 show ?thesis by simp
    qed
  qed
qed

lemma emit_next_no_error: "list_all is_emit_next ev \<Longrightarrow> EmitError e \<notin> set ev"
  by (auto simp: list_all_iff)

lemma decide_is_open:
  "decide env d it = Some (Inr (sf, d1)) \<Longrightarrow> is_open d1 = is_open d"
  by (auto simp: decide_def is_open_def Let_def split: if_splits sum.splits prod.splits)

text \<open>
  The path the claim C5 describes, which the handler takes when the close in its
  \<^verbatim>\<open>except\<close> block returns: once it has sent an error downstream, it has returned,
  the state is reset, the error is the last event and the events leave no file open.
\<close>

lemma on_next_emit_error:
  assumes n: "on_next env d w it = (r, d', w', evs)" and err: "EmitError e \<in> set evs"
  shows "r = Returned \<and> path d' = [] \<and> ofile d' = None \<and> filesize d' = 0 \<and>
         last evs = EmitError e \<and> \<not> open_after (is_open d) evs"
proof (cases "decide env d it")
  case None
  with n err show ?thesis by (simp add: on_next_def)
next
  case (Some dec)
  show ?thesis
  proof (cases dec)
    case (Inl x)
    with Some n err show ?thesis by (simp add: on_next_def)
  next
    case (Inr p)
    obtain sf d1 where p: "p = (sf, d1)" by (cases p)
    note dec = Some[unfolded Inr p]
    define step where "step = (if sf then rotate env d1 w else (Returned, d1, w, []))"
    obtain r2 d2 w2 ev2 where s: "step = (r2, d2, w2, ev2)" by (cases step) auto
    have e2: "EmitError e \<notin> set ev2" "r2 = Returned \<longrightarrow> open_after (is_open d) ev2 = is_open d2"
      using s rotate_events(1)[of env d1 w r2 d2 w2 ev2] rotate_events(2)[of env d1 w r2 d2 w2 ev2 e]
        decide_is_open[OF dec]
      by (cases sf; auto simp: step_def)+
    show ?thesis
    proof (cases r2)
      case (Raised x)
      with n dec s have "evs = ev2"
        by (simp add: on_next_def step_def[symmetric])
      with e2 err show ?thesis by simp
    next
      case Returned
      obtain res d3 w3 ev3 where t: "try_body env d2 w2 it sf = (res, d3, w3, ev3)"
        by (cases "try_body env d2 w2 it sf") auto
      note e3 = try_body_events[OF t]
      then have ne3: "EmitError e \<notin> set ev3" by (simp add: emit_next_no_error)
      show ?thesis
      proof (cases res)
        case (Inr u)
        with n dec s Returned t have "evs = ev2 @ ev3"
          by (simp add: on_next_def step_def[symmetric])
        with e2 ne3 err show ?thesis by simp
      next
        case (Inl x)
        obtain rc d4 ce where cl: "close_file env d3 w3 = (rc, d4, ce)"
          by (cases "close_file env d3 w3") auto
        show ?thesis
        proof (cases rc)
          case (Raised x')
          from close_file_raised_events[OF cl[unfolded Raised]] have "ce = []" by simp
          with n dec s Returned t Inl cl Raised have "evs = ev2 @ ev3"
            by (simp add: on_next_def step_def[symmetric])
          with e2 ne3 err show ?thesis by simp
        next
          case Returned': Returned
          note e4 = close_file_events[OF cl[unfolded Returned']]
          from n dec s Returned t Inl cl Returned'
          have r: "r = Returned" and d: "d' = reset d4"
            and ev: "evs = ev2 @ ev3 @ ce @ [EmitError x]"
            by (simp_all add: on_next_def step_def[symmetric])
          have "EmitError e \<notin> set ce" using e4 by (auto split: if_splits)
          with err e2 ne3 have x: "x = e" by (simp add: ev)
          have "open_after (is_open d) (ev2 @ ev3) = is_open d3"
            using e2 e3 Returned by (simp add: open_after_append open_after_emit_next)
          then have "\<not> open_after (is_open d) evs"
            using e4 unfolding ev
            by (simp add: open_after_append del: append_assoc add: append_assoc[symmetric])
          then show ?thesis
            using r d x by (simp add: ev reset_def)
        qed
      qed
    qed
  qed
qed

lemma feed_stops:
  "on_next env d w it = (r, d', w', evs) \<Longrightarrow> EmitError e \<in> set evs \<Longrightarrow>
     feed env d w (it # rest) = (r, d', w', evs)"
proof -
  assume n: "on_next env d w it = (r, d', w', evs)" and e: "EmitError e \<in> set evs"
  from e have "list_ex is_terminal evs"
    by (auto simp: list_ex_iff intro!: bexI[of _ "EmitError e"])
  with n show ?thesis by simp
qed

lemma on_next_write_fails:
  assumes "ofile d = Some h" "\<not> is_closed h" "kind it = SegmentData" "\<not> forced_split it"
    and "write_error env (tick w) = Some e"
    and "close_error env (Suc (tick w)) = None"
  shows "on_next env d w it =
           (Returned, reset d, w\<lparr>tick := Suc (tick w)\<rparr>, [FileClosed (path d), EmitError e])"
  using assms
  by (simp add: on_next_def decide_def need_split_file_def try_body_def dump_item_def
        write_data_def close_file_def reset_def Let_def)

text \<open>
  The same write failure when the close raises as well: the exception of the close
  leaves the handler, nothing is sent and the state is not reset.
\<close>

lemma on_next_write_and_close_fail:
  assumes "ofile d = Some h" "\<not> is_closed h" "kind it = SegmentData" "\<not> forced_split it"
    and "write_error env (tick w) = Some e"
    and "close_error env (Suc (tick w)) = Some e'"
  shows "on_next env d w it =
           (Raised e', d\<lparr>ofile := Some (h\<lparr>is_closed := True\<rparr>)\<rparr>, w\<lparr>tick := Suc (tick w)\<rparr>, [])"
  using assms
  by (simp add: on_next_def decide_def need_split_file_def try_body_def dump_item_def
        write_data_def close_file_def Let_def)

lemma feed_write_fail_sample:
  "feed write_fail_env new_dumper empty_world [init_a, seg_1, seg_3] =
     (Returned, reset after_init, after_init_world\<lparr>tick := 3\<rparr>,
      [FileOpened ''r.m4s'' 0, EmitNext (init_a\<lparr>offset := Some 0\<rparr>),
       FileClosed ''r.m4s'', EmitError OSError])"
  by (simp add: after_init_def after_init_world_def write_fail_env_def
        init_a_def seg_1_def seg_3_def ok_env_def empty_world_def new_dumper_def
        on_next_def decide_def is_redundant_def must_split_file_def ffprobe_sample
        need_split_file_def rotate_def close_file_def reset_def open_file_def
        try_body_def dump_item_def write_data_def update_filesize_def write_at_def Let_def)

text \<open>
  Claim C5, evaluated where it fails. On a full disk the write of \<open>seg_1\<close> raises,
  and in the \<^verbatim>\<open>except\<close> block the close of the file raises again. That exception
  leaves \<^verbatim>\<open>on_next\<close>: no \<open>FileClosed\<close> and no error is sent, and the path and the
  size are those of the file, not reset. When only the write raises, the handler does
  what the claim says.
\<close>

theorem write_and_close_failure_skips_cleanup:
  "feed disk_full_env new_dumper empty_world [init_a, seg_1, seg_3] =
     (Raised OSError,
      after_init\<lparr>ofile := Some \<lparr>fname = ''r.m4s'', fpos = 2, is_closed = True\<rparr>\<rparr>,
      after_init_world\<lparr>tick := 3\<rparr>,
      [FileOpened ''r.m4s'' 0, EmitNext (init_a\<lparr>offset := Some 0\<rparr>)]) \<and>
   on_next disk_full_env after_init after_init_world seg_1 =
     (Raised OSError,
      after_init\<lparr>ofile := Some \<lparr>fname = ''r.m4s'', fpos = 2, is_closed = True\<rparr>\<rparr>,
      after_init_world\<lparr>tick := 3\<rparr>, []) \<and>
   path (after_init\<lparr>ofile := Some \<lparr>fname = ''r.m4s'', fpos = 2, is_closed = True\<rparr>\<rparr>) = ''r.m4s'' \<and>
   filesize (after_init\<lparr>ofile := Some \<lparr>fname = ''r.m4s'', fpos = 2, is_closed = True\<rparr>\<rparr>) = 2 \<and>
   feed write_fail_env new_dumper empty_world [init_a, seg_1, seg_3] =
     (Returned, reset after_init, after_init_world\<lparr>tick := 3\<rparr>,
      [FileOpened ''r.m4s'' 0, EmitNext (init_a\<lparr>offset := Some 0\<rparr>),
       FileClosed ''r.m4s'', EmitError OSError])"
  by (simp add: after_init_def after_init_world_def write_fail_env_def disk_full_env_def
        init_a_def seg_1_def seg_3_def ok_env_def empty_world_def new_dumper_def
        on_next_def decide_def is_redundant_def must_split_file_def ffprobe_sample
        need_split_file_def rotate_def close_file_def reset_def open_file_def
        try_body_def dump_item_def write_data_def update_filesize_def write_at_def Let_def)

text \<open>
  Claim C8, evaluated where it fails. \<open>init_a\<close> has been written and its file is
  open; \<open>init_b\<close> is not redundant, so both payloads are probed, and the probe of
  \<open>init_b\<close> times out. The exception leaves \<^verbatim>\<open>on_next\<close> with the state unchanged:
  the file is still open and no \<open>FileClosed\<close> has been sent.
\<close>

theorem probe_failure_leaves_file_open:
  "feed probe_fail_env new_dumper empty_world [init_a, init_b] =
     (Raised TimeoutExpired, after_init, after_init_world,
      [FileOpened ''r.m4s'' 0, EmitNext (init_a\<lparr>offset := Some 0\<rparr>)]) \<and>
   on_next probe_fail_env after_init after_init_world init_b =
     (Raised TimeoutExpired, after_init, after_init_world, []) \<and>
   is_open after_init \<and>
   open_after False [FileOpened ''r.m4s'' 0, EmitNext (init_a\<lparr>offset := Some 0\<rparr>)]"
  by (simp add: after_init_def after_init_world_def probe_fail_env_def
        init_a_def init_b_def ok_env_def empty_world_def new_dumper_def
        on_next_def decide_def is_redundant_def must_split_file_def
        ffprobe_def ffprobe_run_def sample_profile_def
        normalize_streams_def streams_of_kind_def get_default_def get_encoder_def
        merge_streams_def
        need_split_file_def rotate_def close_file_def reset_def open_file_def
        try_body_def dump_item_def write_data_def update_filesize_def write_at_def Let_def
        is_open_def)

section \<open>Properties of the terminal events\<close>

text \<open>
  What holds of the dumper when the close returns: completion, an upstream error and
  disposal each close the open file and leave the path empty, no file held and the
  size 0.
\<close>

lemma dumper_terminal_events_reset:
  assumes "close_error env (tick w) = None"
  shows "\<exists>d1 ev. on_completed env d w = (Returned, d1, ev @ [EmitCompleted]) \<and>
           path d1 = [] \<and> ofile d1 = None \<and> filesize d1 = 0 \<and> \<not> open_after (is_open d) ev"
    and "\<exists>d1 ev. on_error env d w e = (Returned, d1, ev @ [EmitError e]) \<and>
           path d1 = [] \<and> ofile d1 = None \<and> filesize d1 = 0 \<and> \<not> open_after (is_open d) ev"
    and "\<exists>d1 ev. dispose env d w = (Returned, d1, ev) \<and>
           path d1 = [] \<and> ofile d1 = None \<and> filesize d1 = 0 \<and> last_init_item d1 = None \<and>
           \<not> open_after (is_open d) ev"
  using assms
  by (auto simp: on_completed_def on_error_def dispose_def close_file_def reset_def
        is_open_def Let_def split: option.splits)

lemma analyser_video_reset:
  "video_width (analyser_dispose a) = JInt 0 \<and> video_height (analyser_dispose a) = JInt 0 \<and>
   video_width (analyser_subscribe a) = JInt 0 \<and> video_height (analyser_subscribe a) = JInt 0"
  by (simp add: analyser_dispose_def analyser_subscribe_def analyser_reset_def)

text \<open>
  Claim C9, evaluated where it fails. A profile with an audio stream arrives, then the
  subscription is disposed of and a new one is made: the cached width and height are
  back to 0, the cached sample rate and channel count are still those of the old
  session, so the state is not the initial one.
\<close>

theorem analyser_audio_not_reset:
  "on_profile_updated new_analyser (sample_profile [1, 2]) = Inr updated_analyser \<and>
   analyser_dispose updated_analyser =
     \<lparr>video_width = JInt 0, video_height = JInt 0,
      audio_sample_rate = Some (JStr ''44100''), audio_channels = Some (JInt 2)\<rparr> \<and>
   analyser_subscribe (analyser_dispose updated_analyser) =
     \<lparr>video_width = JInt 0, video_height = JInt 0,
      audio_sample_rate = Some (JStr ''44100''), audio_channels = Some (JInt 2)\<rparr> \<and>
   new_analyser =
     \<lparr>video_width = JInt 0, video_height = JInt 0,
      audio_sample_rate = None, audio_channels = None\<rparr> \<and>
   analyser_subscribe (analyser_dispose updated_analyser) \<noteq> new_analyser"
  by (simp add: on_profile_updated_def new_analyser_def analyser_reset_def
        updated_analyser_def analyser_dispose_def analyser_subscribe_def
        sample_profile_def streams_of_kind_def get_default_def entries_def)

end
